theory Spec2Isabelle
  imports Main "HOL-Library.Sublist"
begin

section \<open>JavaScript strings\<close>

text \<open>
  A JavaScript string is a sequence of UTF-16 code units; \<open>includes\<close>, the regular
  expression of the generator and \<open>length\<close> all work on code units. The messages of the
  program are Chinese, so a string is modelled as the list of its code units, and the
  ASCII literals of the source are written with \<open>js\<close>.
\<close>

type_synonym jsstring = "nat list"

definition js :: "string \<Rightarrow> jsstring" where
  "js s = map of_char s"

text \<open>\<open>s.includes(needle)\<close>: \<open>needle\<close> occurs in \<open>s\<close> as a contiguous run.\<close>

primrec includes_str :: "jsstring \<Rightarrow> jsstring \<Rightarrow> bool" where
  "includes_str [] needle = (needle = [])"
| "includes_str (c # cs) needle = (prefix needle (c # cs) \<or> includes_str cs needle)"

text \<open>The decimal digits of a number, as a template literal prints \<open>${attempt}\<close>.\<close>

fun decimal :: "nat \<Rightarrow> jsstring" where
  "decimal n = (if n < 10 then [48 + n] else decimal (n div 10) @ [48 + n mod 10])"

section \<open>The painting generator (geminiService.ts)\<close>

subsection \<open>Parsing the data URL\<close>

text \<open>
  \<open>imageDataUrl.match(/^data:(image\/\w+);base64,(.*)$/)\<close>. The expression has no flags:
  \<open>^\<close> and \<open>$\<close> are the two ends of the input, \<open>\w\<close> is \<open>[A-Za-z0-9_]\<close> and \<open>.\<close> is
  any code unit but the four line terminators. \<open>\w+\<close> is followed by \<open>;\<close>, which is no
  word character, so the run it matches is the longest one; \<open>(.*)$\<close> is the whole rest.
\<close>

definition is_word_char :: "nat \<Rightarrow> bool" where
  "is_word_char c \<longleftrightarrow>
     (48 \<le> c \<and> c \<le> 57) \<or> (65 \<le> c \<and> c \<le> 90) \<or> c = 95 \<or> (97 \<le> c \<and> c \<le> 122)"

definition is_line_terminator :: "nat \<Rightarrow> bool" where
  "is_line_terminator c \<longleftrightarrow> c = 0x0A \<or> c = 0x0D \<or> c = 0x2028 \<or> c = 0x2029"

fun strip_prefix :: "jsstring \<Rightarrow> jsstring \<Rightarrow> jsstring option" where
  "strip_prefix [] s = Some s"
| "strip_prefix (p # ps) [] = None"
| "strip_prefix (p # ps) (c # cs) = (if p = c then strip_prefix ps cs else None)"

text \<open>The result is \<open>(match[1], match[2])\<close>, or \<open>None\<close> where \<open>match\<close> is \<open>null\<close>.\<close>

definition match_data_url :: "jsstring \<Rightarrow> (jsstring \<times> jsstring) option" where
  "match_data_url s =
     (case strip_prefix (js ''data:image/'') s of
        None \<Rightarrow> None
      | Some r \<Rightarrow>
          (if takeWhile is_word_char r = [] then None
           else (case strip_prefix (js '';base64,'') (dropWhile is_word_char r) of
                   None \<Rightarrow> None
                 | Some payload \<Rightarrow>
                     (if list_ex is_line_terminator payload then None
                      else Some (js ''image/'' @ takeWhile is_word_char r, payload)))))"

subsection \<open>Messages\<close>

text \<open>
  The texts of the errors, code unit by code unit. In order: the input is no data URL of
  the expected format; the model returned text instead of an image (up to the opening
  quote); no text response was received; the model could not generate an image after
  (attempt) tries, with the details, or with a pointer to the console; the model failed
  after all retries.
\<close>

definition invalid_url_message :: jsstring where
  "invalid_url_message =
     [0x7121, 0x6548, 0x7684, 0x5716, 0x7247, 0x6578, 0x64DA, 32, 85, 82, 76, 32, 0x683C,
      0x5F0F, 0x3002, 0x9810, 0x671F, 0x683C, 0x5F0F, 0x70BA, 32, 39, 100, 97, 116, 97, 58,
      105, 109, 97, 103, 101, 47, 46, 46, 46, 59, 98, 97, 115, 101, 54, 52, 44, 46, 46, 46,
      39]"

definition text_reply_prefix :: jsstring where
  "text_reply_prefix =
     [65, 73, 32, 0x6A21, 0x578B, 0x56DE, 0x50B3, 0x4E86, 0x6587, 0x5B57, 0x800C, 0x975E,
      0x5716, 0x7247, 58, 32, 34]"

definition no_text_received :: jsstring where
  "no_text_received = [0x672A, 0x6536, 0x5230, 0x6587, 0x5B57, 0x56DE, 0x61C9, 0x3002]"

definition failed_after_prefix :: jsstring where
  "failed_after_prefix = [65, 73, 32, 0x6A21, 0x578B, 0x5728, 0x5617, 0x8A66, 32]"

definition failed_after_details :: jsstring where
  "failed_after_details =
     [32, 0x6B21, 0x5F8C, 0x7121, 0x6CD5, 0x751F, 0x6210, 0x5716, 0x7247, 0x3002, 0x8A73,
      0x7D30, 0x8CC7, 0x8A0A, 58, 32]"

definition failed_after_console :: jsstring where
  "failed_after_console =
     [32, 0x6B21, 0x5F8C, 0x7121, 0x6CD5, 0x751F, 0x6210, 0x5716, 0x7247, 0x3002, 0x8ACB,
      0x67E5, 0x770B, 0x63A7, 0x5236, 0x53F0, 0x4EE5, 0x7372, 0x53D6, 0x66F4, 0x591A, 0x8A73,
      0x7D30, 0x8CC7, 0x8A0A, 0x3002]"

definition all_retries_failed_message :: jsstring where
  "all_retries_failed_message =
     [65, 73, 32, 0x6A21, 0x578B, 0x5728, 0x6240, 0x6709, 0x91CD, 0x8A66, 0x5F8C, 0x672A,
      0x80FD, 0x751F, 0x6210, 0x5716, 0x7247, 0x3002]"

text \<open>
  Two errors are raised by the engine and not by the program: reading \<open>length\<close> of an
  inline part without \<open>data\<close>, and calling \<open>includes\<close> on the \<open>undefined\<close> that
  \<open>JSON.stringify\<close> gives for a value it cannot print. Their messages are those of V8.
\<close>

definition type_error_length :: jsstring where
  "type_error_length = js ''Cannot read properties of undefined (reading 'length')''"

definition type_error_includes :: jsstring where
  "type_error_includes = js ''Cannot read properties of undefined (reading 'includes')''"

definition prompt :: jsstring where
  "prompt = js ''Create a traditional watercolor painting from the front of this building. Add a tiny signature that says '' @ [34] @ js ''Gemini'' @ [34]"

subsection \<open>The remote call\<close>

text \<open>
  The request holds the image part and the text part. The response is read through
  \<open>response.candidates?.[0]?.content?.parts\<close> and \<open>response.text\<close>; every link of the
  chain may be absent. What the SDK answers is not decided by this program: it is the
  parameter \<open>call\<close> below, which gives the outcome of the k-th request.
\<close>

record generation_request =
  req_mimeType :: jsstring
  req_data :: jsstring
  req_text :: jsstring

record inline_data =
  mimeType :: "jsstring option"
  data :: "jsstring option"

record part =
  inlineData :: "inline_data option"

record content =
  parts :: "part list option"

record candidate =
  cand_content :: "content option"

record response =
  candidates :: "candidate list option"
  resp_text :: "jsstring option"

text \<open>
  A thrown value is an \<open>Error\<close> with its message, or anything else, with what
  \<open>JSON.stringify\<close> makes of it (\<open>None\<close> for \<open>undefined\<close>).
\<close>

datatype thrown = ErrorObject jsstring | NonError "jsstring option"

datatype call_outcome = Responds response | Rejects thrown

type_synonym remote = "nat \<Rightarrow> generation_request \<Rightarrow> call_outcome"

subsection \<open>One attempt\<close>

definition imagePartFromResponse :: "response \<Rightarrow> part option" where
  "imagePartFromResponse r =
     (case candidates r of
        None \<Rightarrow> None
      | Some cs \<Rightarrow>
          (case cs of
             [] \<Rightarrow> None
           | c # _ \<Rightarrow>
               (case cand_content c of
                  None \<Rightarrow> None
                | Some ct \<Rightarrow>
                    (case parts ct of
                       None \<Rightarrow> None
                     | Some ps \<Rightarrow> find (\<lambda>p. inlineData p \<noteq> None) ps))))"

text \<open>The template literal \<open>`data:${mimeType};base64,${data}`\<close>.\<close>

definition data_url :: "jsstring option \<Rightarrow> jsstring \<Rightarrow> jsstring" where
  "data_url m d =
     js ''data:'' @ (case m of None \<Rightarrow> js ''undefined'' | Some t \<Rightarrow> t) @ js '';base64,'' @ d"

text \<open>\<open>textResponse || '...'\<close>: the fallback stands in for \<open>undefined\<close> and for the empty string.\<close>

definition text_reply_message :: "jsstring option \<Rightarrow> jsstring" where
  "text_reply_message t =
     text_reply_prefix
     @ (case t of None \<Rightarrow> no_text_received
        | Some s \<Rightarrow> if s = [] then no_text_received else s)
     @ [34]"

text \<open>The body of \<open>try\<close> after the call has answered: \<open>Inr\<close> is the returned string.\<close>

definition read_response :: "response \<Rightarrow> thrown + jsstring" where
  "read_response r =
     (case imagePartFromResponse r of
        None \<Rightarrow> Inl (ErrorObject (text_reply_message (resp_text r)))
      | Some p \<Rightarrow>
          (case inlineData p of
             None \<Rightarrow> Inl (ErrorObject (text_reply_message (resp_text r)))
           | Some i \<Rightarrow>
               (case data i of
                  None \<Rightarrow> Inl (ErrorObject type_error_length)
                | Some d \<Rightarrow> Inr (data_url (mimeType i) d))))"

definition try_body :: "call_outcome \<Rightarrow> thrown + jsstring" where
  "try_body out = (case out of Rejects e \<Rightarrow> Inl e | Responds r \<Rightarrow> read_response r)"

subsection \<open>The catch block\<close>

text \<open>\<open>error instanceof Error ? error.message : JSON.stringify(error)\<close>\<close>

definition errorMessage :: "thrown \<Rightarrow> jsstring option" where
  "errorMessage e = (case e of ErrorObject m \<Rightarrow> Some m | NonError j \<Rightarrow> j)"

definition code_500 :: jsstring where
  "code_500 = [34] @ js ''code'' @ [34] @ js '':500''"

definition isInternalError :: "jsstring \<Rightarrow> bool" where
  "isInternalError m \<longleftrightarrow> includes_str m code_500 \<or> includes_str m (js ''INTERNAL'')"

definition maxRetries :: nat where
  "maxRetries = 3"

definition initialDelay :: nat where
  "initialDelay = 1000"

text \<open>The error thrown at the end of the catch block.\<close>

definition failure_message :: "nat \<Rightarrow> thrown \<Rightarrow> jsstring" where
  "failure_message attempt e =
     (case e of
        ErrorObject m \<Rightarrow> failed_after_prefix @ decimal attempt @ failed_after_details @ m
      | NonError _ \<Rightarrow> failed_after_prefix @ decimal attempt @ failed_after_console)"

subsection \<open>The retry loop\<close>

text \<open>
  A run ends with the returned data URL or with the message of the error thrown. With
  it go the two effects the callers and the specification observe: how many requests
  were sent, and the delays waited, in milliseconds and in order. The loop carries both
  from iteration to iteration: \<open>attempt_loop call req attempt n ws\<close> is the loop at the
  start of the iteration \<open>attempt\<close>, after \<open>n\<close> requests and after the waits \<open>ws\<close>.
\<close>

datatype completion = Returned jsstring | Threw jsstring

record gen_run =
  outcome :: completion
  calls :: nat
  waits :: "nat list"

function attempt_loop ::
  "remote \<Rightarrow> generation_request \<Rightarrow> nat \<Rightarrow> nat \<Rightarrow> nat list \<Rightarrow> gen_run" where
  "attempt_loop call req attempt n ws =
     (if attempt \<le> maxRetries then
        (case try_body (call (n + 1) req) of
           Inr url \<Rightarrow> \<lparr>outcome = Returned url, calls = n + 1, waits = ws\<rparr>
         | Inl e \<Rightarrow>
             (case errorMessage e of
                None \<Rightarrow> \<lparr>outcome = Threw type_error_includes, calls = n + 1, waits = ws\<rparr>
              | Some m \<Rightarrow>
                  (if isInternalError m \<and> attempt < maxRetries
                   then attempt_loop call req (attempt + 1) (n + 1)
                          (ws @ [initialDelay * 2 ^ (attempt - 1)])
                   else \<lparr>outcome = Threw (failure_message attempt e), calls = n + 1,
                          waits = ws\<rparr>)))
      else \<lparr>outcome = Threw all_retries_failed_message, calls = n, waits = ws\<rparr>)"
  by pat_completeness auto
termination
  by (relation "measure (\<lambda>(call, req, attempt, n, ws). Suc maxRetries - attempt)") auto

text \<open>\<open>contents: { parts: [imagePart, textPart] }\<close>, the same for every attempt.\<close>

definition the_request :: "jsstring \<Rightarrow> jsstring \<Rightarrow> generation_request" where
  "the_request mt b = \<lparr>req_mimeType = mt, req_data = b, req_text = prompt\<rparr>"

definition generateWatercolourPainting :: "remote \<Rightarrow> jsstring \<Rightarrow> gen_run" where
  "generateWatercolourPainting call imageDataUrl =
     (case match_data_url imageDataUrl of
        None \<Rightarrow> \<lparr>outcome = Threw invalid_url_message, calls = 0, waits = []\<rparr>
      | Some (mt, base64Data) \<Rightarrow> attempt_loop call (the_request mt base64Data) 1 0 [])"

section \<open>The application state (the component around the generator)\<close>

text \<open>
  The state of the component: what \<open>useState\<close> holds, and the two refs that the
  handlers read. A location is two numbers that the program only stores. The
  placeholder text and the refs of the DOM nodes play no part in the handlers below.
\<close>

definition map_not_initialized_message :: jsstring where
  "map_not_initialized_message =
     [0x5730, 0x5716, 0x5C1A, 0x672A, 0x521D, 0x59CB, 0x5316, 0x3002]"

definition painting_failed_message :: jsstring where
  "painting_failed_message =
     [0x751F, 0x6210, 0x6C34, 0x5F69, 0x756B, 0x5931, 0x6557, 0x3002]"

type_synonym latlng = "int \<times> int"

record marker =
  position :: latlng
  title :: jsstring
  on_map :: bool

record app_state =
  address :: jsstring
  error :: "jsstring option"
  isLoading :: bool
  mapInitialized :: bool
  isGeneratingPainting :: bool
  watercolourPainting :: jsstring
  capturedMapImage :: jsstring
  mapInstance :: "latlng option"
  markerInstance :: "marker option"

text \<open>
  \<open>initMap\<close>. \<open>mounted\<close>: \<open>mapRef.current\<close> is there; \<open>loaded\<close>: both
  \<open>importLibrary\<close> calls resolved (where one rejects, nothing has been changed yet).
\<close>

definition initMap :: "bool \<Rightarrow> bool \<Rightarrow> latlng \<Rightarrow> jsstring \<Rightarrow> app_state \<Rightarrow> app_state" where
  "initMap mounted loaded location formattedAddr s =
     (if \<not> mounted then s
      else if \<not> loaded then s
      else s\<lparr>mapInstance := Some location,
             markerInstance :=
               (case markerInstance s of
                  None \<Rightarrow> Some \<lparr>position = location, title = formattedAddr, on_map = False\<rparr>
                | Some m \<Rightarrow> Some \<lparr>position = location, title = formattedAddr, on_map = True\<rparr>),
             mapInitialized := True,
             watercolourPainting := [],
             capturedMapImage := []\<rparr>)"

text \<open>
  \<open>captureMapView\<close>. What \<open>html2canvas\<close> and \<open>toDataURL\<close> give is the parameter
  \<open>shot\<close>: a data URL, or the value the promise rejects with.
\<close>

definition captureMapView :: "thrown + jsstring \<Rightarrow> app_state \<Rightarrow> thrown + jsstring" where
  "captureMapView shot s =
     (case mapInstance s of
        None \<Rightarrow> Inl (ErrorObject map_not_initialized_message)
      | Some _ \<Rightarrow> shot)"

text \<open>
  A run of \<open>handleGenerateWatercolour\<close>: the state while the work is in flight (after the
  setters that precede the request), the state at the end, how often
  \<open>captureMapView\<close> was called, the image handed to the generator, and the generator's
  run.
\<close>

record handler_run =
  during :: app_state
  final :: app_state
  captures :: nat
  processed :: "jsstring option"
  generation :: "gen_run option"

text \<open>The catch block: \<open>setError(err instanceof Error ? err.message : ...)\<close> and the two resets.\<close>

definition on_failure :: "thrown \<Rightarrow> app_state \<Rightarrow> app_state" where
  "on_failure err s =
     s\<lparr>error := Some (case err of ErrorObject m \<Rightarrow> m | NonError _ \<Rightarrow> painting_failed_message),
       watercolourPainting := [],
       capturedMapImage := [],
       isGeneratingPainting := False\<rparr>"

text \<open>
  The handler is suspended twice: at \<open>await captureMapView()\<close> and at
  \<open>await generateWatercolourPainting(...)\<close>. What it reads from its closure, the
  painting and the cached capture, is read in the state it starts in; the setters that
  follow an \<open>await\<close> write into the state as it is when the handler resumes. What the
  other handlers of the component did to the state in the meantime is the two
  parameters \<open>while_capturing\<close> and \<open>while_generating\<close>.
\<close>

text \<open>The call of the generator and what follows it; every error of the generator is an \<open>Error\<close>.\<close>

definition generate_and_store_among ::
  "(app_state \<Rightarrow> app_state) \<Rightarrow> remote \<Rightarrow> jsstring \<Rightarrow> nat \<Rightarrow> app_state \<Rightarrow> handler_run" where
  "generate_and_store_among while_generating call imageToProcess ncap s =
     (let run = generateWatercolourPainting call imageToProcess
      in \<lparr>during = s,
          final =
            (case outcome run of
               Returned paintingDataUrl \<Rightarrow>
                 (while_generating s)
                   \<lparr>watercolourPainting := paintingDataUrl, isGeneratingPainting := False\<rparr>
             | Threw m \<Rightarrow> on_failure (ErrorObject m) (while_generating s)),
          captures = ncap,
          processed = Some imageToProcess,
          generation = Some run\<rparr>)"

definition handleGenerateWatercolour_among ::
  "(app_state \<Rightarrow> app_state) \<Rightarrow> (app_state \<Rightarrow> app_state) \<Rightarrow>
   thrown + jsstring \<Rightarrow> remote \<Rightarrow> app_state \<Rightarrow> handler_run" where
  "handleGenerateWatercolour_among while_capturing while_generating shot call s =
     (let isRerunning = (watercolourPainting s \<noteq> []);
          s1 = s\<lparr>isGeneratingPainting := True, error := None\<rparr>
      in if isRerunning \<and> capturedMapImage s \<noteq> []
         then generate_and_store_among while_generating call (capturedMapImage s) 0 s1
         else (case captureMapView shot s of
                 Inl err \<Rightarrow>
                   \<lparr>during = s1, final = on_failure err (while_capturing s1), captures = 1,
                    processed = None, generation = None\<rparr>
               | Inr newImageDataUrl \<Rightarrow>
                   generate_and_store_among while_generating call newImageDataUrl 1
                     ((while_capturing s1)\<lparr>capturedMapImage := newImageDataUrl\<rparr>)))"

text \<open>The run of the handler during which no other handler acts.\<close>

definition generate_and_store :: "remote \<Rightarrow> jsstring \<Rightarrow> nat \<Rightarrow> app_state \<Rightarrow> handler_run" where
  "generate_and_store call imageToProcess ncap s =
     generate_and_store_among (\<lambda>s. s) call imageToProcess ncap s"

definition handleGenerateWatercolour ::
  "thrown + jsstring \<Rightarrow> remote \<Rightarrow> app_state \<Rightarrow> handler_run" where
  "handleGenerateWatercolour shot call s =
     handleGenerateWatercolour_among (\<lambda>s. s) (\<lambda>s. s) shot call s"

definition handleBackToMap :: "app_state \<Rightarrow> app_state" where
  "handleBackToMap s = s\<lparr>watercolourPainting := [], capturedMapImage := []\<rparr>"

text \<open>
  The phase of the pipeline, as the component renders it: the spinner overlay while
  \<open>isGeneratingPainting\<close>, the result overlay for a painting, the map once it is
  initialised, and the placeholder before.
\<close>

datatype pipeline_phase = NoView | ViewReady | Generating | ResultReady

definition phase :: "app_state \<Rightarrow> pipeline_phase" where
  "phase s =
     (if isGeneratingPainting s then Generating
      else if watercolourPainting s \<noteq> [] then ResultReady
      else if mapInitialized s then ViewReady
      else NoView)"

section \<open>Notions of the specification\<close>

text \<open>
  An attempt ends in a retryable failure: the catch block is entered with a value whose
  description holds one of the two markers.
\<close>

definition retryable :: "call_outcome \<Rightarrow> bool" where
  "retryable out =
     (case try_body out of
        Inr _ \<Rightarrow> False
      | Inl e \<Rightarrow> (case errorMessage e of None \<Rightarrow> False | Some m \<Rightarrow> isInternalError m))"

text \<open>A thrown value has a description, and the description holds a marker.\<close>

definition marked :: "thrown \<Rightarrow> bool" where
  "marked e = (case errorMessage e of None \<Rightarrow> False | Some m \<Rightarrow> isInternalError m)"

text \<open>
  The description of a raised value, in the words of the specification: the message of
  an error and, for any other value, its JSON text where it has one. A description holds
  an internal-error marker when the text \<open>"code":500\<close> or the text \<open>INTERNAL\<close> stands
  somewhere in it (the two markers are written as code units).
\<close>

fun description :: "thrown \<Rightarrow> jsstring option" where
  "description (ErrorObject m) = Some m"
| "description (NonError j) = j"

definition holds_marker :: "jsstring \<Rightarrow> bool" where
  "holds_marker d \<longleftrightarrow>
     sublist [34, 99, 111, 100, 101, 34, 58, 53, 48, 48] d
     \<or> sublist [73, 78, 84, 69, 82, 78, 65, 76] d"

definition retryable_error :: "thrown \<Rightarrow> bool" where
  "retryable_error e = (case description e of None \<Rightarrow> False | Some d \<Rightarrow> holds_marker d)"

text \<open>
  How a run ended: the last request is the one that was answered with the returned
  image, or the one whose failure the catch block turned into the error thrown.
\<close>

definition ended_by :: "remote \<Rightarrow> generation_request \<Rightarrow> gen_run \<Rightarrow> bool" where
  "ended_by call req run \<longleftrightarrow>
     (case outcome run of
        Returned u \<Rightarrow> try_body (call (calls run) req) = Inr u
      | Threw msg \<Rightarrow>
          (case try_body (call (calls run) req) of
             Inr _ \<Rightarrow> False
           | Inl e \<Rightarrow>
               msg = (case errorMessage e of
                        None \<Rightarrow> type_error_includes
                      | Some _ \<Rightarrow> failure_message (calls run) e)))"

text \<open>The delays waited before attempts \<open>2, ..., j + 1\<close>.\<close>

definition backoff_waits :: "nat \<Rightarrow> nat list" where
  "backoff_waits j = map (\<lambda>k. initialDelay * 2 ^ (k - 1)) [1..<Suc j]"


text \<open>
  The message of a text-only response puts the returned text between two quotes. The
  text brings a marker into the message when it holds \<open>INTERNAL\<close> or \<open>"code":500\<close>,
  or when it begins with \<open>code":500\<close>: then the opening quote of the message completes
  the marker.
\<close>

definition code_500_tail :: jsstring where
  "code_500_tail = js ''code'' @ [34] @ js '':500''"

definition text_marks_retry :: "jsstring \<Rightarrow> bool" where
  "text_marks_retry t \<longleftrightarrow>
     includes_str t (js ''INTERNAL'') \<or> includes_str t code_500 \<or> prefix code_500_tail t"

section \<open>Sample data\<close>

definition quoted :: "jsstring \<Rightarrow> jsstring" where
  "quoted s = [34] @ s @ [34]"

definition image_reply :: "jsstring option \<Rightarrow> jsstring option \<Rightarrow> response" where
  "image_reply m d =
     \<lparr>candidates =
        Some [\<lparr>cand_content =
                 Some \<lparr>parts = Some [\<lparr>inlineData = Some \<lparr>mimeType = m, data = d\<rparr>\<rparr>]\<rparr>\<rparr>],
      resp_text = None\<rparr>"


definition png_reply :: response where
  "png_reply = image_reply (Some (js ''image/png'')) (Some (js ''iVBORw0KG''))"

definition png_url :: jsstring where
  "png_url = js ''data:image/png;base64,iVBORw0KG''"

definition api_500 :: thrown where
  "api_500 = ErrorObject (js ''{'' @ quoted (js ''error'') @ js '':{'' @ code_500 @ js ''}}'')"

definition always_png :: remote where
  "always_png k r = Responds png_reply"

definition always_500 :: remote where
  "always_500 k r = Rejects api_500"

definition twice_500_then_png :: remote where
  "twice_500_then_png k r = (if k < 3 then Rejects api_500 else Responds png_reply)"

definition empty_payload_url :: jsstring where
  "empty_payload_url = js ''data:image/png;base64,''"

definition svg_url :: jsstring where
  "svg_url = js ''data:image/svg+xml;base64,PHN2Zy8+''"





definition capture_url :: jsstring where
  "capture_url = js ''data:image/png;base64,Q0FQVFVSRQ==''"

definition old_capture_url :: jsstring where
  "old_capture_url = js ''data:image/png;base64,T0xE''"

definition no_view_state :: app_state where
  "no_view_state =
     \<lparr>address = js ''Eiffel Tower, Paris'', error = None, isLoading = False,
      mapInitialized = False, isGeneratingPainting = False, watercolourPainting = [],
      capturedMapImage = [], mapInstance = None, markerInstance = None\<rparr>"

definition paris :: latlng where
  "paris = (48858370, 2294481)"

definition view_state :: app_state where
  "view_state = initMap True True paris (js ''Eiffel Tower, Paris'') no_view_state"

definition result_state :: app_state where
  "result_state = view_state\<lparr>watercolourPainting := png_url, capturedMapImage := old_capture_url\<rparr>"

definition code_500_json :: jsstring where
  "code_500_json = js ''{'' @ [34] @ js ''code'' @ [34] @ js '':500}''"

definition always_500_object :: remote where
  "always_500_object k r = Rejects (NonError (Some code_500_json))"

definition png_part :: part where
  "png_part = \<lparr>inlineData = Some \<lparr>mimeType = Some (js ''image/png''), data = Some (js ''iVBORw0KG'')\<rparr>\<rparr>"

definition jpeg_part :: part where
  "jpeg_part = \<lparr>inlineData = Some \<lparr>mimeType = Some (js ''image/jpeg''), data = Some (js ''/9j/4AAQ'')\<rparr>\<rparr>"

definition text_part :: part where
  "text_part = \<lparr>inlineData = None\<rparr>"

definition candidate_of :: "part list \<Rightarrow> candidate" where
  "candidate_of ps = \<lparr>cand_content = Some \<lparr>parts = Some ps\<rparr>\<rparr>"

definition text_then_png_reply :: response where
  "text_then_png_reply =
     \<lparr>candidates = Some [candidate_of [text_part, png_part]], resp_text = Some (js ''Here it is.'')\<rparr>"

definition jpeg_then_png_reply :: response where
  "jpeg_then_png_reply =
     \<lparr>candidates = Some [candidate_of [jpeg_part, png_part]], resp_text = None\<rparr>"

definition second_candidate_reply :: response where
  "second_candidate_reply =
     \<lparr>candidates = Some [candidate_of [text_part], candidate_of [png_part]],
      resp_text = Some (js ''Here it is.'')\<rparr>"

definition jpeg_url :: jsstring where
  "jpeg_url = js ''data:image/jpeg;base64,/9j/4AAQ''"

definition always_text_then_png :: remote where
  "always_text_then_png k r = Responds text_then_png_reply"

definition always_jpeg_then_png :: remote where
  "always_jpeg_then_png k r = Responds jpeg_then_png_reply"

definition always_second_candidate :: remote where
  "always_second_candidate k r = Responds second_candidate_reply"

text \<open>
  A new location resolved while a generation requested at an earlier location is in
  flight: during the capture, and during the call of the generator.
\<close>

definition london :: latlng where
  "london = (51500729, -124625)"

definition recenter_to_london :: "app_state \<Rightarrow> app_state" where
  "recenter_to_london s = initMap True True london (js ''Big Ben, London'') s"

definition undisturbed :: "app_state \<Rightarrow> app_state" where
  "undisturbed s = s"

definition recentered_while_capturing :: handler_run where
  "recentered_while_capturing =
     handleGenerateWatercolour_among recenter_to_london undisturbed (Inr capture_url) always_png
       view_state"

definition recentered_while_generating :: handler_run where
  "recentered_while_generating =
     handleGenerateWatercolour_among undisturbed recenter_to_london (Inr capture_url) always_png
       view_state"

section \<open>Auxiliary facts\<close>

subsection \<open>Strings\<close>

declare decimal.simps [simp del]

lemma decimal_digit [simp]: "n < 10 \<Longrightarrow> decimal n = [48 + n]"
  by (simp add: decimal.simps)

lemma strip_prefix_Some_iff: "strip_prefix p s = Some r \<longleftrightarrow> s = p @ r"
  by (induction p s rule: strip_prefix.induct) auto

lemma strip_prefix_append: "strip_prefix p (p @ r) = Some r"
  by (simp add: strip_prefix_Some_iff)

lemma includes_str_sublist: "includes_str s needle \<longleftrightarrow> sublist needle s"
  by (induction s) (auto simp: sublist_Cons_right)

lemma includes_str_snoc:
  "includes_str (s @ [x]) needle \<longleftrightarrow> includes_str s needle \<or> suffix needle (s @ [x])"
  by (auto simp: includes_str_sublist sublist_snoc)

lemma no_marker_in_fallback: "\<not> isInternalError (text_reply_prefix @ no_text_received @ [34])"
  by (simp add: isInternalError_def text_reply_prefix_def no_text_received_def code_500_def js_def)

lemma includes_str_embedded:
  "includes_str s needle \<Longrightarrow> includes_str (ps @ s @ ss) needle"
  unfolding includes_str_sublist sublist_def by (metis append.assoc)

lemma marker_in_text_reply:
  "isInternalError (text_reply_message tx)
   \<longleftrightarrow> (case tx of None \<Rightarrow> False | Some t \<Rightarrow> text_marks_retry t)"
proof (cases tx)
  case None
  then show ?thesis
    using no_marker_in_fallback by (simp add: text_reply_message_def)
next
  case (Some t)
  show ?thesis
  proof (cases "t = []")
    case True
    have "\<not> text_marks_retry []"
      by (simp add: text_marks_retry_def code_500_def code_500_tail_def js_def)
    then show ?thesis
      using no_marker_in_fallback Some True by (simp add: text_reply_message_def)
  next
    case False
    have msg: "text_reply_message tx = text_reply_prefix @ t @ [34]"
      using Some False by (simp add: text_reply_message_def)
    have code: "code_500 = 34 # code_500_tail"
      by (simp add: code_500_def code_500_tail_def)
    show ?thesis
    proof (cases "text_marks_retry t")
      case True
      then consider "includes_str t (js ''INTERNAL'')" | "includes_str t code_500"
        | "prefix code_500_tail t"
        unfolding text_marks_retry_def by blast
      then have "isInternalError (text_reply_prefix @ t @ [34])"
      proof cases
        case 1
        then show ?thesis
          using includes_str_embedded by (simp add: isInternalError_def)
      next
        case 2
        then show ?thesis
          using includes_str_embedded by (simp add: isInternalError_def)
      next
        case 3
        then have "prefix code_500_tail (t @ [34])"
          by simp
        then have "includes_str (text_reply_prefix @ t @ [34]) code_500"
          unfolding code by (simp add: text_reply_prefix_def)
        then show ?thesis
          by (simp add: isInternalError_def)
      qed
      then show ?thesis
        using True Some msg by simp
    next
      case False
      then have "\<not> includes_str t (js ''INTERNAL'')" and no_code: "\<not> includes_str t code_500"
        and no_tail: "\<not> prefix code_500_tail t"
        unfolding text_marks_retry_def by blast+
      have internal: "js ''INTERNAL'' = js ''INTERNA'' @ [76]"
        and tail: "code_500_tail = (js ''code'' @ [34] @ js '':50'') @ [48]"
        and code': "code_500 = (34 # js ''code'' @ [34] @ js '':50'') @ [48]"
        by (simp_all add: js_def code_500_def code_500_tail_def)
      have a: "\<not> includes_str (t @ [34]) (js ''INTERNAL'')"
        using \<open>\<not> includes_str t (js ''INTERNAL'')\<close> unfolding includes_str_snoc internal by simp
      have b: "\<not> includes_str (t @ [34]) code_500"
        using no_code unfolding includes_str_snoc code' by simp
      have c: "\<not> prefix code_500_tail (t @ [34])"
        using no_tail unfolding tail by simp
      have "includes_str (text_reply_prefix @ t @ [34]) (js ''INTERNAL'')
            \<longleftrightarrow> includes_str (t @ [34]) (js ''INTERNAL'')"
        by (simp add: text_reply_prefix_def js_def)
      moreover have "includes_str (text_reply_prefix @ t @ [34]) code_500
            \<longleftrightarrow> prefix code_500_tail (t @ [34]) \<or> includes_str (t @ [34]) code_500"
        unfolding code by (simp add: text_reply_prefix_def)
      ultimately have "\<not> isInternalError (text_reply_prefix @ t @ [34])"
        using a b c by (simp add: isInternalError_def)
      then show ?thesis
        using False Some msg by simp
    qed
  qed
qed

subsection \<open>The retry loop, one iteration at a time\<close>

declare attempt_loop.simps [simp del]

lemma loop_returns:
  "attempt \<le> maxRetries \<Longrightarrow> try_body (call (n + 1) req) = Inr u \<Longrightarrow>
   attempt_loop call req attempt n ws = \<lparr>outcome = Returned u, calls = n + 1, waits = ws\<rparr>"
  by (subst attempt_loop.simps) simp

lemma loop_retries:
  "attempt < maxRetries \<Longrightarrow> retryable (call (n + 1) req) \<Longrightarrow>
   attempt_loop call req attempt n ws =
   attempt_loop call req (attempt + 1) (n + 1) (ws @ [initialDelay * 2 ^ (attempt - 1)])"
  by (subst attempt_loop.simps) (auto simp: retryable_def split: sum.splits option.splits)

lemma loop_fatal:
  "attempt \<le> maxRetries \<Longrightarrow> try_body (call (n + 1) req) = Inl e \<Longrightarrow>
   errorMessage e = Some m \<Longrightarrow> \<not> (isInternalError m \<and> attempt < maxRetries) \<Longrightarrow>
   attempt_loop call req attempt n ws =
   \<lparr>outcome = Threw (failure_message attempt e), calls = n + 1, waits = ws\<rparr>"
  by (subst attempt_loop.simps) auto

lemma loop_type_error:
  "attempt \<le> maxRetries \<Longrightarrow> try_body (call (n + 1) req) = Inl e \<Longrightarrow>
   errorMessage e = None \<Longrightarrow>
   attempt_loop call req attempt n ws =
   \<lparr>outcome = Threw type_error_includes, calls = n + 1, waits = ws\<rparr>"
  by (subst attempt_loop.simps) auto

lemma loop_skip:
  "attempt + j \<le> maxRetries \<Longrightarrow>
   (\<forall>k. n < k \<and> k \<le> n + j \<longrightarrow> retryable (call k req)) \<Longrightarrow>
   attempt_loop call req attempt n ws =
   attempt_loop call req (attempt + j) (n + j)
     (ws @ map (\<lambda>k. initialDelay * 2 ^ (k - 1)) [attempt..<attempt + j])"
proof (induction j arbitrary: attempt n ws)
  case 0
  then show ?case by simp
next
  case (Suc j)
  have first: "retryable (call (n + 1) req)"
    using Suc.prems(2) by simp
  have rest: "\<forall>k. n + 1 < k \<and> k \<le> (n + 1) + j \<longrightarrow> retryable (call k req)"
    using Suc.prems(2) by simp
  have bound: "(attempt + 1) + j \<le> maxRetries"
    using Suc.prems(1) by simp
  have "attempt_loop call req attempt n ws =
        attempt_loop call req (attempt + 1) (n + 1) (ws @ [initialDelay * 2 ^ (attempt - 1)])"
    using Suc.prems(1) first by (intro loop_retries) simp_all
  also have "\<dots> = attempt_loop call req ((attempt + 1) + j) ((n + 1) + j)
        ((ws @ [initialDelay * 2 ^ (attempt - 1)])
          @ map (\<lambda>k. initialDelay * 2 ^ (k - 1)) [attempt + 1..<(attempt + 1) + j])"
    by (rule Suc.IH [OF bound rest])
  finally have step: "attempt_loop call req attempt n ws =
        attempt_loop call req ((attempt + 1) + j) ((n + 1) + j)
        ((ws @ [initialDelay * 2 ^ (attempt - 1)])
          @ map (\<lambda>k. initialDelay * 2 ^ (k - 1)) [attempt + 1..<(attempt + 1) + j])" .
  have range: "[attempt..<attempt + Suc j] = attempt # [attempt + 1..<(attempt + 1) + j]"
    by (simp add: upt_conv_Cons del: upt_Suc)
  show ?case
    unfolding range using step by simp
qed

lemma generate_reaches:
  assumes "match_data_url url = Some (mt, b)" and "1 \<le> a" and "a \<le> maxRetries"
    and "\<forall>k. 1 \<le> k \<and> k < a \<longrightarrow> retryable (call k (the_request mt b))"
  shows "generateWatercolourPainting call url =
         attempt_loop call (the_request mt b) a (a - 1) (backoff_waits (a - 1))"
proof -
  have "attempt_loop call (the_request mt b) 1 0 [] =
        attempt_loop call (the_request mt b) (1 + (a - 1)) (0 + (a - 1))
          ([] @ map (\<lambda>k. initialDelay * 2 ^ (k - 1)) [1..<1 + (a - 1)])"
    using assms by (intro loop_skip) auto
  then show ?thesis
    using assms by (simp add: generateWatercolourPainting_def the_request_def backoff_waits_def)
qed

lemma backoff_waits_simps:
  "backoff_waits 0 = []" "backoff_waits 1 = [1000]" "backoff_waits 2 = [1000, 2000]"
  by (simp_all add: backoff_waits_def initialDelay_def upt_conv_Cons)

lemma loop_calls_ge:
  "attempt \<le> maxRetries \<Longrightarrow> n + 1 \<le> calls (attempt_loop call req attempt n ws)"
proof (induction call req attempt n ws rule: attempt_loop.induct)
  case (1 call req attempt n ws)
  show ?case
  proof (cases "try_body (call (n + 1) req)")
    case (Inr u)
    then show ?thesis using "1.prems" by (simp add: loop_returns)
  next
    case (Inl e)
    show ?thesis
    proof (cases "errorMessage e")
      case None
      then show ?thesis using Inl "1.prems" by (simp add: loop_type_error)
    next
      case (Some m)
      show ?thesis
      proof (cases "isInternalError m \<and> attempt < maxRetries")
        case True
        then have "n + 1 + 1 \<le> calls (attempt_loop call req (attempt + 1) (n + 1)
                     (ws @ [initialDelay * 2 ^ (attempt - 1)]))"
          using "1.IH" [OF "1.prems" Inl Some] by simp
        moreover have "retryable (call (n + 1) req)"
          using Inl Some True by (simp add: retryable_def)
        ultimately show ?thesis
          using True by (simp add: loop_retries)
      next
        case False
        then show ?thesis using Inl Some "1.prems" by (simp add: loop_fatal)
      qed
    qed
  qed
qed

lemma loop_waits_prefix: "prefix ws (waits (attempt_loop call req attempt n ws))"
proof (induction call req attempt n ws rule: attempt_loop.induct)
  case (1 call req attempt n ws)
  show ?case
  proof (cases "attempt \<le> maxRetries \<and> (\<exists>e m. try_body (call (n + 1) req) = Inl e
                  \<and> errorMessage e = Some m \<and> isInternalError m \<and> attempt < maxRetries)")
    case True
    then obtain e m where h: "attempt \<le> maxRetries" "try_body (call (n + 1) req) = Inl e"
        "errorMessage e = Some m" "isInternalError m \<and> attempt < maxRetries"
      by blast
    have "prefix (ws @ [initialDelay * 2 ^ (attempt - 1)])
            (waits (attempt_loop call req (attempt + 1) (n + 1)
               (ws @ [initialDelay * 2 ^ (attempt - 1)])))"
      using "1.IH" [OF h] .
    moreover have "attempt_loop call req attempt n ws =
        attempt_loop call req (attempt + 1) (n + 1) (ws @ [initialDelay * 2 ^ (attempt - 1)])"
      using h by (subst attempt_loop.simps) simp
    ultimately show ?thesis
      by (metis append_prefixD)
  next
    case False
    then show ?thesis
      by (subst attempt_loop.simps) (auto split: sum.splits option.splits)
  qed
qed

lemma length_backoff_waits: "length (backoff_waits j) = j"
  by (simp add: backoff_waits_def)

lemma backoff_waits_Suc:
  "backoff_waits (Suc j) = backoff_waits j @ [initialDelay * 2 ^ j]"
  by (simp add: backoff_waits_def)

subsection \<open>The parser and the expression it stands for\<close>

lemma semicolon_base64: "js '';base64,'' = 59 # js ''base64,''"
  by (simp add: js_def)

lemma semicolon_no_word_char: "\<not> is_word_char 59"
  by (simp add: is_word_char_def)

lemma takeWhile_word_run:
  "list_all is_word_char w \<Longrightarrow> takeWhile is_word_char (w @ js '';base64,'' @ p) = w"
  by (simp add: takeWhile_append2 list_all_iff semicolon_base64 semicolon_no_word_char)

lemma dropWhile_word_run:
  "list_all is_word_char w \<Longrightarrow>
   dropWhile is_word_char (w @ js '';base64,'' @ p) = js '';base64,'' @ p"
  by (simp add: dropWhile_append2 list_all_iff semicolon_base64 semicolon_no_word_char)

lemma match_data_url_Some_iff:
  "match_data_url s = Some (m, p) \<longleftrightarrow>
   (\<exists>w. s = js ''data:image/'' @ w @ js '';base64,'' @ p \<and> w \<noteq> []
        \<and> list_all is_word_char w \<and> \<not> list_ex is_line_terminator p
        \<and> m = js ''image/'' @ w)"
proof
  assume "match_data_url s = Some (m, p)"
  then obtain r where r: "strip_prefix (js ''data:image/'') s = Some r"
      and run: "takeWhile is_word_char r \<noteq> []"
      and rest: "strip_prefix (js '';base64,'') (dropWhile is_word_char r) = Some p"
      and lt: "\<not> list_ex is_line_terminator p"
      and m: "m = js ''image/'' @ takeWhile is_word_char r"
    by (auto simp: match_data_url_def split: option.splits if_splits)
  have "r = takeWhile is_word_char r @ dropWhile is_word_char r"
    by simp
  also have "dropWhile is_word_char r = js '';base64,'' @ p"
    using rest by (simp add: strip_prefix_Some_iff)
  finally have "s = js ''data:image/'' @ takeWhile is_word_char r @ js '';base64,'' @ p"
    using r by (simp add: strip_prefix_Some_iff)
  moreover have "list_all is_word_char (takeWhile is_word_char r)"
    by (auto simp: list_all_iff dest: set_takeWhileD)
  ultimately show "\<exists>w. s = js ''data:image/'' @ w @ js '';base64,'' @ p \<and> w \<noteq> []
        \<and> list_all is_word_char w \<and> \<not> list_ex is_line_terminator p
        \<and> m = js ''image/'' @ w"
    using run lt m by blast
next
  assume "\<exists>w. s = js ''data:image/'' @ w @ js '';base64,'' @ p \<and> w \<noteq> []
        \<and> list_all is_word_char w \<and> \<not> list_ex is_line_terminator p
        \<and> m = js ''image/'' @ w"
  then obtain w where s: "s = js ''data:image/'' @ w @ js '';base64,'' @ p" and w: "w \<noteq> []"
      and word: "list_all is_word_char w" and lt: "\<not> list_ex is_line_terminator p"
      and m: "m = js ''image/'' @ w"
    by blast
  have "strip_prefix (js ''data:image/'') s = Some (w @ js '';base64,'' @ p)"
    using s by (simp add: strip_prefix_Some_iff)
  then show "match_data_url s = Some (m, p)"
    using w lt m takeWhile_word_run [OF word] dropWhile_word_run [OF word]
    by (simp add: match_data_url_def strip_prefix_append)
qed

lemma match_svg: "match_data_url (js ''data:image/svg+xml;base64,'' @ payload) = None"
  by (simp add: match_data_url_def js_def is_word_char_def)

lemma match_empty_payload: "match_data_url empty_payload_url = Some (js ''image/png'', [])"
  by (simp add: match_data_url_def empty_payload_url_def js_def is_word_char_def
      is_line_terminator_def)

lemma generate_rejects_input:
  "match_data_url url = None \<Longrightarrow>
   generateWatercolourPainting call url =
   \<lparr>outcome = Threw invalid_url_message, calls = 0, waits = []\<rparr>"
  by (simp add: generateWatercolourPainting_def)

lemma plus_no_word_char: "\<not> is_word_char (of_char CHR ''+'')"
  by (simp add: is_word_char_def)



subsection \<open>The generator at its k-th attempt\<close>

lemma retryable_Rejects: "retryable (Rejects e) = marked e"
  by (simp add: retryable_def marked_def try_body_def)

lemma retryable_Inl: "try_body out = Inl e \<Longrightarrow> retryable out = marked e"
  by (simp add: retryable_def marked_def)

lemma prefix_take: "prefix xs ys \<Longrightarrow> take (length xs) ys = xs"
  by (auto simp: prefix_def)

lemma generate_at_attempt_returns:
  assumes "match_data_url url = Some (mt, b)" and "1 \<le> a" and "a \<le> maxRetries"
    and "\<forall>k. 1 \<le> k \<and> k < a \<longrightarrow> retryable (call k (the_request mt b))"
    and "try_body (call a (the_request mt b)) = Inr u"
  shows "generateWatercolourPainting call url =
         \<lparr>outcome = Returned u, calls = a, waits = backoff_waits (a - 1)\<rparr>"
proof -
  have "try_body (call (a - 1 + 1) (the_request mt b)) = Inr u"
    using assms by simp
  then have "attempt_loop call (the_request mt b) a (a - 1) (backoff_waits (a - 1)) =
      \<lparr>outcome = Returned u, calls = a - 1 + 1, waits = backoff_waits (a - 1)\<rparr>"
    using assms(3) loop_returns [where attempt = a and call = call and n = "a - 1" and u = u
        and req = "the_request mt b" and ws = "backoff_waits (a - 1)"] by simp
  then show ?thesis
    using assms by (simp add: generate_reaches)
qed

lemma generate_at_attempt_stops:
  assumes "match_data_url url = Some (mt, b)" and "1 \<le> a" and "a \<le> maxRetries"
    and "\<forall>k. 1 \<le> k \<and> k < a \<longrightarrow> retryable (call k (the_request mt b))"
    and "try_body (call a (the_request mt b)) = Inl e"
    and "\<not> (marked e \<and> a < maxRetries)"
  shows "generateWatercolourPainting call url =
         \<lparr>outcome = Threw (case errorMessage e of None \<Rightarrow> type_error_includes
                                | Some m \<Rightarrow> failure_message a e),
          calls = a, waits = backoff_waits (a - 1)\<rparr>"
proof -
  have body: "try_body (call (a - 1 + 1) (the_request mt b)) = Inl e"
    using assms by simp
  have "attempt_loop call (the_request mt b) a (a - 1) (backoff_waits (a - 1)) =
      \<lparr>outcome = Threw (case errorMessage e of None \<Rightarrow> type_error_includes
                                | Some m \<Rightarrow> failure_message a e),
       calls = a - 1 + 1, waits = backoff_waits (a - 1)\<rparr>"
  proof (cases "errorMessage e")
    case None
    then show ?thesis
      using loop_type_error [where attempt = a and call = call and n = "a - 1" and e = e
          and req = "the_request mt b" and ws = "backoff_waits (a - 1)"] assms(3) body
      by simp
  next
    case (Some m)
    then have "\<not> (isInternalError m \<and> a < maxRetries)"
      using assms(6) by (simp add: marked_def)
    then show ?thesis
      using loop_fatal [where attempt = a and call = call and n = "a - 1" and e = e and m = m
          and req = "the_request mt b" and ws = "backoff_waits (a - 1)"] assms(3) body Some
      by simp
  qed
  then show ?thesis
    using assms by (simp add: generate_reaches)
qed

lemma generate_at_attempt_retries:
  assumes "match_data_url url = Some (mt, b)" and "1 \<le> a" and "a < maxRetries"
    and "\<forall>k. 1 \<le> k \<and> k < a \<longrightarrow> retryable (call k (the_request mt b))"
    and "retryable (call a (the_request mt b))"
  shows "a < calls (generateWatercolourPainting call url)
         \<and> take a (waits (generateWatercolourPainting call url)) = backoff_waits a"
proof -
  have all: "\<forall>k. 1 \<le> k \<and> k < a + 1 \<longrightarrow> retryable (call k (the_request mt b))"
    using assms(4,5) by (auto simp: less_Suc_eq)
  have run: "generateWatercolourPainting call url =
      attempt_loop call (the_request mt b) (a + 1) a (backoff_waits a)"
    using generate_reaches [where a = "a + 1" and call = call and url = url and mt = mt and b = b]
      assms(1,3) all by simp
  have "a + 1 \<le> calls (attempt_loop call (the_request mt b) (a + 1) a (backoff_waits a))"
    using assms(3) by (intro loop_calls_ge) simp
  moreover have "take (length (backoff_waits a))
      (waits (attempt_loop call (the_request mt b) (a + 1) a (backoff_waits a))) = backoff_waits a"
    by (intro prefix_take loop_waits_prefix)
  ultimately show ?thesis
    by (simp add: run length_backoff_waits)
qed

subsection \<open>Reading a response\<close>




lemma try_body_Inr_cases:
  assumes "try_body out = Inr u"
  shows "\<exists>r p i d. out = Responds r \<and> imagePartFromResponse r = Some p
           \<and> inlineData p = Some i \<and> data i = Some d \<and> u = data_url (mimeType i) d"
  using assms
  by (cases out) (auto simp: try_body_def read_response_def split: option.splits)

lemma try_body_Inl_cases:
  assumes "try_body out = Inl e"
  shows "out = Rejects e
         \<or> (\<exists>r. out = Responds r
               \<and> (e = ErrorObject (text_reply_message (resp_text r))
                    \<or> e = ErrorObject type_error_length))"
  using assms
  by (cases out) (auto simp: try_body_def read_response_def split: option.splits)

subsection \<open>How a run ends\<close>

lemma loop_ended_by:
  "attempt \<le> maxRetries \<Longrightarrow> attempt = n + 1 \<Longrightarrow>
   ended_by call req (attempt_loop call req attempt n ws)
   \<and> calls (attempt_loop call req attempt n ws) \<le> maxRetries"
proof (induction call req attempt n ws rule: attempt_loop.induct)
  case (1 call req attempt n ws)
  show ?case
  proof (cases "try_body (call (n + 1) req)")
    case (Inr u)
    then show ?thesis
      using "1.prems" by (simp add: loop_returns ended_by_def)
  next
    case (Inl e)
    show ?thesis
    proof (cases "marked e \<and> attempt < maxRetries")
      case True
      then obtain m where m: "errorMessage e = Some m" "isInternalError m \<and> attempt < maxRetries"
        by (auto simp: marked_def split: option.splits)
      have "retryable (call (n + 1) req)"
        using Inl True by (simp add: retryable_Inl)
      then have "attempt_loop call req attempt n ws =
          attempt_loop call req (attempt + 1) (n + 1) (ws @ [initialDelay * 2 ^ (attempt - 1)])"
        using True by (simp add: loop_retries)
      moreover have "ended_by call req
            (attempt_loop call req (attempt + 1) (n + 1) (ws @ [initialDelay * 2 ^ (attempt - 1)]))
          \<and> calls (attempt_loop call req (attempt + 1) (n + 1)
                (ws @ [initialDelay * 2 ^ (attempt - 1)])) \<le> maxRetries"
        using "1.IH" [OF "1.prems"(1) Inl m(1) m(2)] True "1.prems" by simp
      ultimately show ?thesis by simp
    next
      case False
      show ?thesis
      proof (cases "errorMessage e")
        case None
        then show ?thesis
          using Inl "1.prems" by (simp add: loop_type_error ended_by_def)
      next
        case (Some m)
        then have "\<not> (isInternalError m \<and> attempt < maxRetries)"
          using False by (simp add: marked_def)
        then show ?thesis
          using Inl Some "1.prems" loop_fatal [where attempt = attempt and call = call and n = n
              and req = req and e = e and m = m and ws = ws]
          by (simp add: ended_by_def)
      qed
    qed
  qed
qed

lemma generate_ended_by:
  assumes "match_data_url url = Some (mt, b)"
  shows "ended_by call (the_request mt b) (generateWatercolourPainting call url)"
    and "1 \<le> calls (generateWatercolourPainting call url)"
    and "calls (generateWatercolourPainting call url) \<le> maxRetries"
proof -
  have run: "generateWatercolourPainting call url = attempt_loop call (the_request mt b) 1 0 []"
    using assms by (simp add: generateWatercolourPainting_def the_request_def)
  show "ended_by call (the_request mt b) (generateWatercolourPainting call url)"
    and "calls (generateWatercolourPainting call url) \<le> maxRetries"
    using loop_ended_by [of 1 0 call "the_request mt b" "[]"] by (simp_all add: run maxRetries_def)
  show "1 \<le> calls (generateWatercolourPainting call url)"
    using loop_calls_ge [of 1 0 call "the_request mt b" "[]"] by (simp add: run maxRetries_def)
qed

lemma failure_message_not_invalid: "failure_message a e \<noteq> invalid_url_message"
  by (simp add: failure_message_def failed_after_prefix_def invalid_url_message_def
      split: thrown.splits)

lemma type_error_not_invalid: "type_error_includes \<noteq> invalid_url_message"
  by (simp add: type_error_includes_def invalid_url_message_def js_def)

lemma generate_accepted_not_invalid:
  assumes "match_data_url url = Some (mt, b)"
  shows "outcome (generateWatercolourPainting call url) \<noteq> Threw invalid_url_message"
proof
  assume threw: "outcome (generateWatercolourPainting call url) = Threw invalid_url_message"
  with generate_ended_by(1) [OF assms, of call]
  obtain e where "invalid_url_message =
      (case errorMessage e of None \<Rightarrow> type_error_includes
       | Some _ \<Rightarrow> failure_message (calls (generateWatercolourPainting call url)) e)"
    by (auto simp: ended_by_def split: sum.splits)
  then show False
    using failure_message_not_invalid type_error_not_invalid
    by (cases "errorMessage e") (simp_all, metis+)
qed

subsection \<open>The sample data\<close>

lemma match_png_url: "match_data_url png_url = Some (js ''image/png'', js ''iVBORw0KG'')"
  by (simp add: match_data_url_def png_url_def js_def is_word_char_def is_line_terminator_def)

lemma api_500_message:
  "errorMessage api_500 = Some (js ''{'' @ quoted (js ''error'') @ js '':{'' @ code_500 @ js ''}}'')"
  by (simp add: api_500_def errorMessage_def)

lemma api_500_marker:
  "isInternalError (js ''{'' @ quoted (js ''error'') @ js '':{'' @ code_500 @ js ''}}'')"
  by (simp add: isInternalError_def code_500_def quoted_def js_def)

lemma api_500_code:
  "includes_str (js ''{'' @ quoted (js ''error'') @ js '':{'' @ code_500 @ js ''}}'') code_500"
  by (simp add: code_500_def quoted_def js_def)

lemma retryable_api_500: "retryable (Rejects api_500)"
  using api_500_marker by (simp add: retryable_def try_body_def api_500_message)

lemma png_reply_read: "try_body (Responds png_reply) = Inr png_url"
  by (simp add: try_body_def read_response_def imagePartFromResponse_def png_reply_def
      image_reply_def data_url_def png_url_def js_def)

lemma marked_api_500: "marked api_500"
  using api_500_marker by (simp add: marked_def api_500_message)


lemma match_raw_base64: "match_data_url (js ''iVBORw0KG'') = None"
  by (simp add: match_data_url_def js_def)



subsection \<open>The handlers of the component\<close>

lemma generate_returned_nonempty:
  assumes "outcome (generateWatercolourPainting call u) = Returned p"
  shows "p \<noteq> []"
proof (cases "match_data_url u")
  case None
  then show ?thesis
    using assms by (simp add: generate_rejects_input)
next
  case (Some mb)
  then obtain mt b where m: "match_data_url u = Some (mt, b)"
    by (cases mb) simp
  have "try_body (call (calls (generateWatercolourPainting call u)) (the_request mt b)) = Inr p"
    using generate_ended_by(1) [OF m, of call] assms by (simp add: ended_by_def)
  then obtain i :: inline_data and d where "p = data_url (mimeType i) d"
    using try_body_Inr_cases by blast
  then show ?thesis
    by (simp add: data_url_def js_def)
qed

lemma handler_reuses_cache:
  assumes "watercolourPainting s \<noteq> []" and "capturedMapImage s \<noteq> []"
  shows "handleGenerateWatercolour shot call s =
         generate_and_store call (capturedMapImage s) 0
           (s\<lparr>isGeneratingPainting := True, error := None\<rparr>)"
  using assms
  by (simp add: handleGenerateWatercolour_def handleGenerateWatercolour_among_def
      generate_and_store_def Let_def)

lemma handler_captures:
  assumes "\<not> (watercolourPainting s \<noteq> [] \<and> capturedMapImage s \<noteq> [])"
  shows "handleGenerateWatercolour shot call s =
         (case captureMapView shot s of
            Inl err \<Rightarrow>
              \<lparr>during = s\<lparr>isGeneratingPainting := True, error := None\<rparr>,
               final = on_failure err (s\<lparr>isGeneratingPainting := True, error := None\<rparr>),
               captures = 1, processed = None, generation = None\<rparr>
          | Inr newImageDataUrl \<Rightarrow>
              generate_and_store call newImageDataUrl 1
                (s\<lparr>isGeneratingPainting := True, error := None,
                   capturedMapImage := newImageDataUrl\<rparr>))"
  using assms
  by (auto simp: handleGenerateWatercolour_def handleGenerateWatercolour_among_def
      generate_and_store_def Let_def split: sum.splits)

lemma generate_and_store_fields:
  "during (generate_and_store call img n s) = s"
  "captures (generate_and_store call img n s) = n"
  "processed (generate_and_store call img n s) = Some img"
  "generation (generate_and_store call img n s) = Some (generateWatercolourPainting call img)"
  by (simp_all add: generate_and_store_def generate_and_store_among_def Let_def)

lemma generate_and_store_success:
  "outcome (generateWatercolourPainting call img) = Returned p \<Longrightarrow>
   final (generate_and_store call img n s) =
   s\<lparr>watercolourPainting := p, isGeneratingPainting := False\<rparr>"
  by (simp add: generate_and_store_def generate_and_store_among_def Let_def)

lemma generate_and_store_failure:
  "outcome (generateWatercolourPainting call img) = Threw m \<Longrightarrow>
   final (generate_and_store call img n s) = on_failure (ErrorObject m) s"
  by (simp add: generate_and_store_def generate_and_store_among_def Let_def)

lemma handler_captures_count:
  "\<not> (watercolourPainting s \<noteq> [] \<and> capturedMapImage s \<noteq> []) \<Longrightarrow>
   captures (handleGenerateWatercolour shot call s) = 1"
  by (simp add: handler_captures generate_and_store_fields split: sum.splits)

lemma handler_fresh_capture:
  assumes "\<not> (watercolourPainting s \<noteq> [] \<and> capturedMapImage s \<noteq> [])"
    and "captureMapView shot s = Inr u"
  shows "handleGenerateWatercolour shot call s =
         generate_and_store call u 1
           (s\<lparr>isGeneratingPainting := True, error := None, capturedMapImage := u\<rparr>)"
  using assms by (simp add: handler_captures)

lemma on_failure_fields:
  "watercolourPainting (on_failure err s) = []" "capturedMapImage (on_failure err s) = []"
  "\<not> isGeneratingPainting (on_failure err s)"
  "mapInitialized (on_failure err s) = mapInitialized s"
  "error (on_failure (ErrorObject m) s) = Some m"
  by (simp_all add: on_failure_def)

lemma handler_generation:
  assumes "processed (handleGenerateWatercolour shot call s) = Some img"
  shows "\<exists>n s'. handleGenerateWatercolour shot call s = generate_and_store call img n s'
          \<and> isGeneratingPainting s' \<and> mapInitialized s' = mapInitialized s"
proof (cases "watercolourPainting s \<noteq> [] \<and> capturedMapImage s \<noteq> []")
  case True
  then have run: "handleGenerateWatercolour shot call s =
      generate_and_store call (capturedMapImage s) 0
        (s\<lparr>isGeneratingPainting := True, error := None\<rparr>)"
    by (simp add: handler_reuses_cache)
  then have "img = capturedMapImage s"
    using assms by (simp add: generate_and_store_fields)
  then have "handleGenerateWatercolour shot call s =
      generate_and_store call img 0 (s\<lparr>isGeneratingPainting := True, error := None\<rparr>)
      \<and> isGeneratingPainting (s\<lparr>isGeneratingPainting := True, error := None\<rparr>)
      \<and> mapInitialized (s\<lparr>isGeneratingPainting := True, error := None\<rparr>) = mapInitialized s"
    using run by simp
  then show ?thesis by blast
next
  case False
  show ?thesis
  proof (cases "captureMapView shot s")
    case (Inl err)
    then have "processed (handleGenerateWatercolour shot call s) = None"
      using False by (simp add: handler_captures)
    then show ?thesis
      using assms by simp
  next
    case (Inr u)
    then have run: "handleGenerateWatercolour shot call s =
        generate_and_store call u 1
          (s\<lparr>isGeneratingPainting := True, error := None, capturedMapImage := u\<rparr>)"
      using False by (simp add: handler_fresh_capture)
    then have "img = u"
      using assms by (simp add: generate_and_store_fields)
    then have "handleGenerateWatercolour shot call s =
        generate_and_store call img 1
          (s\<lparr>isGeneratingPainting := True, error := None, capturedMapImage := u\<rparr>)
        \<and> isGeneratingPainting
            (s\<lparr>isGeneratingPainting := True, error := None, capturedMapImage := u\<rparr>)
        \<and> mapInitialized
            (s\<lparr>isGeneratingPainting := True, error := None, capturedMapImage := u\<rparr>)
            = mapInitialized s"
      using run by simp
    then show ?thesis by blast
  qed
qed

lemma initMap_fields:
  "watercolourPainting (initMap True True loc addr s) = []"
  "capturedMapImage (initMap True True loc addr s) = []"
  "mapInitialized (initMap True True loc addr s)"
  "mapInstance (initMap True True loc addr s) = Some loc"
  "isGeneratingPainting (initMap True True loc addr s) = isGeneratingPainting s"
  by (simp_all add: initMap_def)

lemma view_state_fields:
  "watercolourPainting view_state = []" "capturedMapImage view_state = []"
  "mapInstance view_state = Some paris" "mapInitialized view_state"
  "\<not> isGeneratingPainting view_state"
  by (simp_all add: view_state_def initMap_def no_view_state_def)

lemma result_state_fields:
  "watercolourPainting result_state = png_url" "capturedMapImage result_state = old_capture_url"
  "mapInstance result_state = Some paris" "mapInitialized result_state"
  "\<not> isGeneratingPainting result_state"
  by (simp_all add: result_state_def view_state_fields)

lemma sample_urls_nonempty: "png_url \<noteq> []" "old_capture_url \<noteq> []" "capture_url \<noteq> []"
  by (simp_all add: png_url_def old_capture_url_def capture_url_def js_def)

lemma match_capture_url:
  "match_data_url capture_url = Some (js ''image/png'', js ''Q0FQVFVSRQ=='')"
  by (simp add: match_data_url_def capture_url_def js_def is_word_char_def is_line_terminator_def)

lemma always_png_on_capture:
  "generateWatercolourPainting always_png capture_url =
     \<lparr>outcome = Returned png_url, calls = 1, waits = []\<rparr>"
  using generate_at_attempt_returns [where a = 1 and call = always_png and url = capture_url
      and u = png_url, OF match_capture_url] png_reply_read
  by (simp add: maxRetries_def always_png_def backoff_waits_simps)

lemma always_500_on_capture:
  "generateWatercolourPainting always_500 capture_url =
     \<lparr>outcome = Threw (failure_message 3 api_500), calls = 3, waits = [1000, 2000]\<rparr>"
proof -
  have "\<forall>k. 1 \<le> k \<and> k < 3 \<longrightarrow>
      retryable (always_500 k (the_request (js ''image/png'') (js ''Q0FQVFVSRQ=='')))"
    using retryable_api_500 by (simp add: always_500_def)
  moreover have "try_body (always_500 3 (the_request (js ''image/png'') (js ''Q0FQVFVSRQ==''))) =
      Inl api_500"
    by (simp add: always_500_def try_body_def)
  ultimately show ?thesis
    using generate_at_attempt_stops [where a = 3 and call = always_500 and url = capture_url
        and e = api_500, OF match_capture_url]
    by (simp add: maxRetries_def api_500_message backoff_waits_simps)
qed

lemma back_to_map_shows_view:
  "watercolourPainting (handleBackToMap s) = [] \<and> capturedMapImage (handleBackToMap s) = []
   \<and> (mapInitialized s \<and> \<not> isGeneratingPainting s \<longrightarrow> phase (handleBackToMap s) = ViewReady)"
  by (simp add: handleBackToMap_def phase_def)

subsection \<open>The notions of the specification and the code\<close>

lemma marker_code_units:
  "code_500 = [34, 99, 111, 100, 101, 34, 58, 53, 48, 48]"
  "js ''INTERNAL'' = [73, 78, 84, 69, 82, 78, 65, 76]"
  by (simp_all add: code_500_def js_def)

lemma isInternalError_holds_marker: "isInternalError m \<longleftrightarrow> holds_marker m"
  by (simp add: isInternalError_def holds_marker_def includes_str_sublist marker_code_units)

lemma errorMessage_description: "errorMessage e = description e"
  by (cases e) (simp_all add: errorMessage_def)

lemma marked_retryable_error: "marked e \<longleftrightarrow> retryable_error e"
  by (simp add: marked_def retryable_error_def errorMessage_description
      isInternalError_holds_marker split: option.splits)

lemma reached_earlier_retryable:
  assumes url: "match_data_url url = Some (mt, b)"
    and reached: "a \<le> calls (generateWatercolourPainting call url)"
  shows "\<forall>k. 1 \<le> k \<and> k < a \<longrightarrow> retryable (call k (the_request mt b))"
proof (rule ccontr)
  let ?bad = "\<lambda>k. 1 \<le> k \<and> k < a \<and> \<not> retryable (call k (the_request mt b))"
  assume "\<not> (\<forall>k. 1 \<le> k \<and> k < a \<longrightarrow> retryable (call k (the_request mt b)))"
  then have ex: "\<exists>k. ?bad k"
    by blast
  define k where "k = (LEAST k. ?bad k)"
  have bad: "?bad k"
    unfolding k_def using ex by (rule LeastI_ex)
  have least: "\<not> ?bad j" if "j < k" for j
    using that not_less_Least unfolding k_def by blast
  have before: "\<forall>j. 1 \<le> j \<and> j < k \<longrightarrow> retryable (call j (the_request mt b))"
    using least bad by (meson less_trans)
  have "calls (generateWatercolourPainting call url) \<le> maxRetries"
    using generate_ended_by(3) [OF url] .
  then have bound: "k \<le> maxRetries"
    using bad reached by linarith
  have "calls (generateWatercolourPainting call url) = k"
  proof (cases "try_body (call k (the_request mt b))")
    case (Inr u)
    then show ?thesis
      using generate_at_attempt_returns [where a = k and call = call and url = url
          and mt = mt and b = b and u = u] url bad bound before by simp
  next
    case (Inl e)
    then have "\<not> marked e"
      using bad by (simp add: retryable_Inl)
    then show ?thesis
      using generate_at_attempt_stops [where a = k and call = call and url = url
          and mt = mt and b = b and e = e] url bad bound before Inl by simp
  qed
  then show False
    using bad reached by simp
qed

lemma generate_when_reached:
  assumes url: "match_data_url url = Some (mt, b)"
    and "1 \<le> a" and reached: "a \<le> calls (generateWatercolourPainting call url)"
  shows "a \<le> maxRetries"
    and "\<forall>k. 1 \<le> k \<and> k < a \<longrightarrow> retryable (call k (the_request mt b))"
  using reached generate_ended_by(3) [OF url, of call] reached_earlier_retryable [OF url reached]
  by simp_all

lemma backoff_waits_explicit: "backoff_waits j = map (\<lambda>k. 1000 * 2 ^ (k - 1)) [1..<Suc j]"
  by (simp add: backoff_waits_def initialDelay_def)

lemma backoff_waits_one: "backoff_waits (Suc 0) = [1000]"
  by (simp add: backoff_waits_def initialDelay_def)

lemma retryable_error_api_500: "retryable_error api_500"
  using marked_api_500 by (simp add: marked_retryable_error)

lemma retryable_error_code_500_json: "retryable_error (NonError (Some code_500_json))"
  by (simp add: retryable_error_def holds_marker_def code_500_json_def js_def
      sublist_Cons_right)

lemma find_first_inline:
  assumes "\<forall>q\<in>set before. inlineData q = None" and "inlineData p = Some i"
  shows "find (\<lambda>p. inlineData p \<noteq> None) (before @ p # after) = Some p"
  using assms by (induction before) simp_all

lemma first_inline_part_read:
  assumes "candidates r = Some (c # cs)" and "cand_content c = Some ct"
    and "parts ct = Some (before @ p # after)"
    and "\<forall>q\<in>set before. inlineData q = None"
    and "inlineData p = Some i" and "mimeType i = Some m" and "data i = Some d"
  shows "try_body (Responds r) = Inr (js ''data:'' @ m @ js '';base64,'' @ d)"
proof -
  have "imagePartFromResponse r = Some p"
    using assms(1-3) find_first_inline [OF assms(4,5)]
    by (simp add: imagePartFromResponse_def)
  then show ?thesis
    using assms(5-7) by (simp add: try_body_def read_response_def data_url_def)
qed

lemma backoff_waits_before: "1 \<le> a \<Longrightarrow> backoff_waits (a - 1) = map (\<lambda>k. 1000 * 2 ^ (k - 1)) [1..<a]"
  by (cases a) (simp_all add: backoff_waits_explicit)

lemma always_text_then_png_run:
  "generateWatercolourPainting always_text_then_png png_url =
     \<lparr>outcome = Returned png_url, calls = 1, waits = []\<rparr>"
proof -
  have "try_body (always_text_then_png 1 (the_request (js ''image/png'') (js ''iVBORw0KG''))) =
      Inr png_url"
    by (simp add: always_text_then_png_def text_then_png_reply_def candidate_of_def
        text_part_def png_part_def try_body_def read_response_def imagePartFromResponse_def
        data_url_def png_url_def js_def)
  then show ?thesis
    using generate_at_attempt_returns [where a = 1 and call = always_text_then_png
        and url = png_url and u = png_url, OF match_png_url]
    by (simp add: maxRetries_def backoff_waits_simps)
qed

lemma backoff_waits_upto: "backoff_waits a = map (\<lambda>k. 1000 * 2 ^ (k - 1)) [1..<Suc a]"
  by (rule backoff_waits_explicit)

lemma api_500_description:
  "description api_500 = Some (js ''{'' @ quoted (js ''error'') @ js '':{'' @ code_500 @ js ''}}'')"
  by (simp add: api_500_def)

lemma api_500_holds_code:
  "sublist [34, 99, 111, 100, 101, 34, 58, 53, 48, 48]
     (js ''{'' @ quoted (js ''error'') @ js '':{'' @ code_500 @ js ''}}'')"
  using api_500_code by (simp add: includes_str_sublist marker_code_units)

subsection \<open>The handler among other handlers\<close>

lemma handler_among_reuses_cache:
  assumes "watercolourPainting s \<noteq> []" and "capturedMapImage s \<noteq> []"
  shows "handleGenerateWatercolour_among f g shot call s =
         generate_and_store_among g call (capturedMapImage s) 0
           (s\<lparr>isGeneratingPainting := True, error := None\<rparr>)"
  using assms by (simp add: handleGenerateWatercolour_among_def Let_def)

lemma handler_among_fresh_capture:
  assumes "\<not> (watercolourPainting s \<noteq> [] \<and> capturedMapImage s \<noteq> [])"
    and "captureMapView shot s = Inr u"
  shows "handleGenerateWatercolour_among f g shot call s =
         generate_and_store_among g call u 1
           ((f (s\<lparr>isGeneratingPainting := True, error := None\<rparr>))\<lparr>capturedMapImage := u\<rparr>)"
  using assms by (auto simp: handleGenerateWatercolour_among_def Let_def)

lemma generate_and_store_among_fields:
  "during (generate_and_store_among g call img n s) = s"
  "captures (generate_and_store_among g call img n s) = n"
  "processed (generate_and_store_among g call img n s) = Some img"
  by (simp_all add: generate_and_store_among_def Let_def)

lemma generate_and_store_among_success:
  "outcome (generateWatercolourPainting call img) = Returned p \<Longrightarrow>
   final (generate_and_store_among g call img n s) =
   (g s)\<lparr>watercolourPainting := p, isGeneratingPainting := False\<rparr>"
  by (simp add: generate_and_store_among_def Let_def)

lemma handler_among_captures_count:
  "\<not> (watercolourPainting s \<noteq> [] \<and> capturedMapImage s \<noteq> []) \<Longrightarrow>
   captures (handleGenerateWatercolour_among f g shot call s) = 1"
  by (auto simp: handleGenerateWatercolour_among_def Let_def generate_and_store_among_fields
      split: sum.splits)

lemma handler_among_undisturbed:
  "handleGenerateWatercolour_among (\<lambda>s. s) (\<lambda>s. s) shot call s =
   handleGenerateWatercolour shot call s"
  by (simp add: handleGenerateWatercolour_def)

lemma recentered_while_capturing_final:
  "final recentered_while_capturing =
     (recenter_to_london (view_state\<lparr>isGeneratingPainting := True, error := None\<rparr>))
       \<lparr>capturedMapImage := capture_url, watercolourPainting := png_url,
        isGeneratingPainting := False\<rparr>"
proof -
  have fresh: "\<not> (watercolourPainting view_state \<noteq> [] \<and> capturedMapImage view_state \<noteq> [])"
    by (simp add: view_state_fields)
  have shot: "captureMapView (Inr capture_url) view_state = Inr capture_url"
    by (simp add: captureMapView_def view_state_fields)
  have painted: "outcome (generateWatercolourPainting always_png capture_url) = Returned png_url"
    by (simp add: always_png_on_capture)
  show ?thesis
    unfolding recentered_while_capturing_def handler_among_fresh_capture [OF fresh shot]
    by (simp add: generate_and_store_among_success [OF painted] undisturbed_def)
qed

lemma recentered_while_generating_final:
  "final recentered_while_generating =
     (recenter_to_london
        (view_state\<lparr>isGeneratingPainting := True, error := None, capturedMapImage := capture_url\<rparr>))
       \<lparr>watercolourPainting := png_url, isGeneratingPainting := False\<rparr>"
proof -
  have fresh: "\<not> (watercolourPainting view_state \<noteq> [] \<and> capturedMapImage view_state \<noteq> [])"
    by (simp add: view_state_fields)
  have shot: "captureMapView (Inr capture_url) view_state = Inr capture_url"
    by (simp add: captureMapView_def view_state_fields)
  have painted: "outcome (generateWatercolourPainting always_png capture_url) = Returned png_url"
    by (simp add: always_png_on_capture)
  show ?thesis
    unfolding recentered_while_generating_def handler_among_fresh_capture [OF fresh shot]
    by (simp add: generate_and_store_among_success [OF painted] undisturbed_def)
qed

lemma request_after_new_location:
  "captures (handleGenerateWatercolour_among f g shot call (initMap True True loc addr s)) = 1
   \<and> (\<forall>u. shot = Inr u \<longrightarrow>
         processed (handleGenerateWatercolour_among f g shot call (initMap True True loc addr s))
         = Some u)"
proof -
  let ?s = "initMap True True loc addr s"
  have fresh: "\<not> (watercolourPainting ?s \<noteq> [] \<and> capturedMapImage ?s \<noteq> [])"
    by (simp add: initMap_fields)
  have "processed (handleGenerateWatercolour_among f g shot call ?s) = Some u" if "shot = Inr u" for u
  proof -
    have "captureMapView shot ?s = Inr u"
      using that by (simp add: captureMapView_def initMap_fields)
    then show ?thesis
      by (simp add: handler_among_fresh_capture [OF fresh] generate_and_store_among_fields)
  qed
  then show ?thesis
    using handler_among_captures_count [OF fresh] by blast
qed

lemma capture_choice_among:
  "(watercolourPainting s \<noteq> [] \<and> capturedMapImage s \<noteq> [] \<longrightarrow>
      captures (handleGenerateWatercolour_among f g shot call s) = 0
      \<and> processed (handleGenerateWatercolour_among f g shot call s) = Some (capturedMapImage s))
   \<and> (\<not> (watercolourPainting s \<noteq> [] \<and> capturedMapImage s \<noteq> []) \<longrightarrow>
        captures (handleGenerateWatercolour_among f g shot call s) = 1)"
  using handler_among_captures_count
  by (auto simp: handler_among_reuses_cache generate_and_store_among_fields)

lemma generator_failure_among:
  assumes "processed (handleGenerateWatercolour_among f g shot call s) = Some img"
    and "outcome (generateWatercolourPainting call img) = Threw msg"
  shows "watercolourPainting (final (handleGenerateWatercolour_among f g shot call s)) = []
         \<and> capturedMapImage (final (handleGenerateWatercolour_among f g shot call s)) = []
         \<and> error (final (handleGenerateWatercolour_among f g shot call s)) = Some msg
         \<and> \<not> isGeneratingPainting (final (handleGenerateWatercolour_among f g shot call s))"
  using assms
  by (auto simp: handleGenerateWatercolour_among_def generate_and_store_among_def Let_def
      on_failure_fields split: if_splits sum.splits)

section \<open>The claims\<close>

subsection \<open>Exhaustion of the retries\<close>

text \<open>
  Claim C1, as the code has it. Let the input be a data URL that the generator accepts,
  and let each of the three calls raise a value \<open>e k\<close> whose description holds an
  internal-error marker. Then the generator sends exactly three requests and waits
  exactly twice, \<open>1000 * 2^(attempt - 1)\<close> after attempts 1 and 2: when attempt 2
  begins, one request has been sent and 1000 ms have been waited; when attempt 3 begins,
  two requests, 1000 ms and 2000 ms; nothing is waited before the first attempt or
  after the third. The error thrown at the end names the three attempts. It carries
  the message of the last value raised where that value is an \<open>Error\<close>; for any other
  value it only points to the console.
\<close>

theorem generate_exhausts_after_three_attempts:
  assumes url: "match_data_url url = Some (mt, b)"
    and fails: "\<forall>k\<in>{1, 2, 3}. call k (the_request mt b) = Rejects (e k) \<and> retryable_error (e k)"
  shows "calls (generateWatercolourPainting call url) = 3
         \<and> waits (generateWatercolourPainting call url) = [1000 * 2 ^ (1 - 1), 1000 * 2 ^ (2 - 1)]
         \<and> waits (generateWatercolourPainting call url) = [1000, 2000]
         \<and> generateWatercolourPainting call url = attempt_loop call (the_request mt b) 2 1 [1000]
         \<and> generateWatercolourPainting call url =
             attempt_loop call (the_request mt b) 3 2 [1000, 2000]
         \<and> (\<forall>m. e 3 = ErrorObject m \<longrightarrow>
              outcome (generateWatercolourPainting call url) =
              Threw (failed_after_prefix @ js ''3'' @ failed_after_details @ m))
         \<and> (\<forall>j. e 3 = NonError j \<longrightarrow>
              outcome (generateWatercolourPainting call url) =
              Threw (failed_after_prefix @ js ''3'' @ failed_after_console))"
proof -
  let ?run = "generateWatercolourPainting call url"
  have each: "call k (the_request mt b) = Rejects (e k) \<and> marked (e k)" if "k \<in> {1, 2, 3}" for k
    using fails that unfolding marked_retryable_error by blast
  have retry: "retryable (call k (the_request mt b))" if "k \<in> {1, 2, 3}" for k
    using each [OF that] by (simp add: retryable_Rejects)
  have upto2: "\<forall>k. 1 \<le> k \<and> k < 2 \<longrightarrow> retryable (call k (the_request mt b))"
  proof (intro allI impI)
    fix k :: nat
    assume "1 \<le> k \<and> k < 2"
    then have "k \<in> {1, 2, 3}" by auto
    then show "retryable (call k (the_request mt b))" by (rule retry)
  qed
  have upto3: "\<forall>k. 1 \<le> k \<and> k < 3 \<longrightarrow> retryable (call k (the_request mt b))"
  proof (intro allI impI)
    fix k :: nat
    assume "1 \<le> k \<and> k < 3"
    then have "k \<in> {1, 2, 3}" by auto
    then show "retryable (call k (the_request mt b))" by (rule retry)
  qed
  have second: "?run = attempt_loop call (the_request mt b) 2 1 [1000]"
    using generate_reaches [where a = 2 and call = call and url = url and mt = mt and b = b]
      url upto2 by (simp add: maxRetries_def backoff_waits_one)
  have third: "?run = attempt_loop call (the_request mt b) 3 2 [1000, 2000]"
    using generate_reaches [where a = 3 and call = call and url = url and mt = mt and b = b]
      url upto3 by (simp add: maxRetries_def backoff_waits_simps)
  have last: "try_body (call 3 (the_request mt b)) = Inl (e 3)"
    using each [of 3] by (simp add: try_body_def)
  have "\<not> (marked (e 3) \<and> 3 < maxRetries)"
    by (simp add: maxRetries_def)
  then have "?run = \<lparr>outcome = Threw (case errorMessage (e 3) of None \<Rightarrow> type_error_includes
                                          | Some m \<Rightarrow> failure_message 3 (e 3)),
                      calls = 3, waits = backoff_waits (3 - 1)\<rparr>"
    using generate_at_attempt_stops [where a = 3 and call = call and url = url and mt = mt
        and b = b and e = "e 3"] url upto3 last
    by (simp add: maxRetries_def)
  moreover obtain d where "errorMessage (e 3) = Some d"
    using each [of 3] by (auto simp: marked_def split: option.splits)
  ultimately have run: "?run = \<lparr>outcome = Threw (failure_message 3 (e 3)), calls = 3,
                                 waits = [1000, 2000]\<rparr>"
    by (simp add: backoff_waits_simps)
  have count: "calls ?run = 3" and waited: "waits ?run = [1000, 2000]"
    by (simp_all add: run)
  have waited': "waits ?run = [1000 * 2 ^ (1 - 1), 1000 * 2 ^ (2 - 1)]"
    by (simp add: run)
  have wrapped: "\<forall>m. e 3 = ErrorObject m \<longrightarrow>
      outcome ?run = Threw (failed_after_prefix @ js ''3'' @ failed_after_details @ m)"
    by (simp add: run failure_message_def js_def)
  have console: "\<forall>j. e 3 = NonError j \<longrightarrow>
      outcome ?run = Threw (failed_after_prefix @ js ''3'' @ failed_after_console)"
    by (simp add: run failure_message_def js_def)
  show ?thesis
    by (rule conjI [OF count conjI [OF waited' conjI [OF waited conjI [OF second
          conjI [OF third conjI [OF wrapped console]]]]]])
qed

text \<open>Three rejections with the error \<open>{"error":{"code":500}}\<close> as message.\<close>

theorem generate_exhausts_after_three_attempts_witness:
  "calls (generateWatercolourPainting always_500 png_url) = 3
   \<and> waits (generateWatercolourPainting always_500 png_url) = [1000, 2000]
   \<and> outcome (generateWatercolourPainting always_500 png_url) =
       Threw (failed_after_prefix @ js ''3'' @ failed_after_details
              @ js ''{'' @ quoted (js ''error'') @ js '':{'' @ code_500 @ js ''}}'')"
proof -
  have "\<forall>k\<in>{1, 2, 3}.
          always_500 k (the_request (js ''image/png'') (js ''iVBORw0KG'')) = Rejects api_500
          \<and> retryable_error api_500"
    using retryable_error_api_500 by (simp add: always_500_def)
  note claim = generate_exhausts_after_three_attempts
         [OF match_png_url, of always_500 "\<lambda>k. api_500", OF this]
  have "api_500 = ErrorObject (js ''{'' @ quoted (js ''error'') @ js '':{'' @ code_500 @ js ''}}'')"
    by (simp add: api_500_def)
  with claim show ?thesis
    by blast
qed

text \<open>
  Claim C1 as it was stated has the final error wrap the last error in every case. A
  call that rejects three times with the plain object \<open>{"code":500}\<close>, which is no
  \<open>Error\<close>, is retried as an internal error, and the error thrown at the end holds
  nothing of it.
\<close>

theorem non_error_value_is_not_wrapped:
  "retryable_error (NonError (Some code_500_json))
   \<and> generateWatercolourPainting always_500_object png_url =
       \<lparr>outcome = Threw (failed_after_prefix @ js ''3'' @ failed_after_console), calls = 3,
        waits = [1000, 2000]\<rparr>
   \<and> \<not> includes_str (failed_after_prefix @ js ''3'' @ failed_after_console) code_500_json"
proof -
  let ?e = "NonError (Some code_500_json)"
  let ?req = "the_request (js ''image/png'') (js ''iVBORw0KG'')"
  have marked: "marked ?e"
    using retryable_error_code_500_json by (simp add: marked_retryable_error)
  have body: "try_body (always_500_object k ?req) = Inl ?e" for k
    by (simp add: always_500_object_def try_body_def)
  have "\<forall>k. 1 \<le> k \<and> k < 3 \<longrightarrow> retryable (always_500_object k ?req)"
    using marked by (simp add: always_500_object_def retryable_Rejects)
  then have "generateWatercolourPainting always_500_object png_url =
      \<lparr>outcome = Threw (failure_message 3 ?e), calls = 3, waits = backoff_waits (3 - 1)\<rparr>"
    using generate_at_attempt_stops [where a = 3 and call = always_500_object
        and url = png_url and e = ?e, OF match_png_url] body
    by (simp add: maxRetries_def errorMessage_def)
  then have run: "generateWatercolourPainting always_500_object png_url =
       \<lparr>outcome = Threw (failed_after_prefix @ js ''3'' @ failed_after_console), calls = 3,
        waits = [1000, 2000]\<rparr>"
    by (simp add: failure_message_def backoff_waits_simps js_def)
  have "\<not> includes_str (failed_after_prefix @ js ''3'' @ failed_after_console) code_500_json"
    by (simp add: failed_after_prefix_def failed_after_console_def code_500_json_def js_def)
  then show ?thesis
    using run retryable_error_code_500_json by blast
qed

subsection \<open>Validation of the input\<close>

text \<open>
  Claim C2, as the code has it. The generator fails at once with the invalid-format
  error, without any request and without any wait, exactly for the inputs that do not
  have the form \<open>data:image/\<close>, one or more word characters, \<open>;base64,\<close> and a payload
  free of line terminators. The payload may be empty: every input of that form is
  accepted and at least one request is sent for it.
\<close>

theorem invalid_input_fails_without_request:
  "(match_data_url url = None \<longrightarrow>
      generateWatercolourPainting call url =
      \<lparr>outcome = Threw invalid_url_message, calls = 0, waits = []\<rparr>)
   \<and> (match_data_url url \<noteq> None \<longrightarrow>
        1 \<le> calls (generateWatercolourPainting call url)
        \<and> outcome (generateWatercolourPainting call url) \<noteq> Threw invalid_url_message)
   \<and> (match_data_url url \<noteq> None \<longleftrightarrow>
        (\<exists>w payload. url = js ''data:image/'' @ w @ js '';base64,'' @ payload \<and> w \<noteq> []
           \<and> list_all is_word_char w \<and> \<not> list_ex is_line_terminator payload))"
proof (intro conjI impI)
  assume "match_data_url url = None"
  then show "generateWatercolourPainting call url =
      \<lparr>outcome = Threw invalid_url_message, calls = 0, waits = []\<rparr>"
    by (rule generate_rejects_input)
next
  assume "match_data_url url \<noteq> None"
  then obtain mt b where m: "match_data_url url = Some (mt, b)"
    by auto
  show "1 \<le> calls (generateWatercolourPainting call url)"
    using generate_ended_by(2) [OF m] .
  show "outcome (generateWatercolourPainting call url) \<noteq> Threw invalid_url_message"
    using generate_accepted_not_invalid [OF m] .
next
  show "match_data_url url \<noteq> None \<longleftrightarrow>
        (\<exists>w payload. url = js ''data:image/'' @ w @ js '';base64,'' @ payload \<and> w \<noteq> []
           \<and> list_all is_word_char w \<and> \<not> list_ex is_line_terminator payload)"
  proof
    assume "match_data_url url \<noteq> None"
    then obtain mt b where "match_data_url url = Some (mt, b)"
      by auto
    then show "\<exists>w payload. url = js ''data:image/'' @ w @ js '';base64,'' @ payload \<and> w \<noteq> []
           \<and> list_all is_word_char w \<and> \<not> list_ex is_line_terminator payload"
      unfolding match_data_url_Some_iff by blast
  next
    assume "\<exists>w payload. url = js ''data:image/'' @ w @ js '';base64,'' @ payload \<and> w \<noteq> []
           \<and> list_all is_word_char w \<and> \<not> list_ex is_line_terminator payload"
    then obtain w payload where "url = js ''data:image/'' @ w @ js '';base64,'' @ payload"
        "w \<noteq> []" "list_all is_word_char w" "\<not> list_ex is_line_terminator payload"
      by blast
    then have "match_data_url url = Some (js ''image/'' @ w, payload)"
      unfolding match_data_url_Some_iff by blast
    then show "match_data_url url \<noteq> None"
      by simp
  qed
qed

theorem invalid_input_fails_without_request_witness:
  "generateWatercolourPainting always_png (js ''iVBORw0KG'') =
     \<lparr>outcome = Threw invalid_url_message, calls = 0, waits = []\<rparr>
   \<and> 1 \<le> calls (generateWatercolourPainting always_png png_url)
   \<and> outcome (generateWatercolourPainting always_png png_url) \<noteq> Threw invalid_url_message"
  using invalid_input_fails_without_request [of "js ''iVBORw0KG''" always_png]
    invalid_input_fails_without_request [of png_url always_png]
    match_raw_base64 match_png_url
  by simp

text \<open>
  Claim C2 as it was stated also rejects an empty payload. The code accepts
  \<open>data:image/png;base64,\<close> and sends the request.
\<close>

theorem empty_payload_is_accepted:
  "match_data_url empty_payload_url = Some (js ''image/png'', [])
   \<and> generateWatercolourPainting always_png empty_payload_url =
       \<lparr>outcome = Returned png_url, calls = 1, waits = []\<rparr>"
  using generate_at_attempt_returns [where a = 1 and call = always_png
      and url = empty_payload_url and u = png_url, OF match_empty_payload]
    png_reply_read match_empty_payload
  by (simp add: maxRetries_def always_png_def backoff_waits_simps)

subsection \<open>Which raised errors are retried\<close>

text \<open>
  Claim C3. Let the generator send an \<open>a\<close>-th request and let that call raise \<open>e\<close>. A
  further request follows if and only if the description of \<open>e\<close> holds a marker
  (\<open>"code":500\<close> or \<open>INTERNAL\<close>) and \<open>a\<close> is below the cap of three; it is then preceded
  by the wait of attempt \<open>a\<close>. In every other case generation ends at attempt \<open>a\<close> with
  an error and with no wait beyond those of the earlier retries. In particular, two
  rejections whose descriptions hold \<open>"code":500\<close>, followed by a third response with
  an inline image, give that image after exactly the waits 1000 ms and 2000 ms.
\<close>

theorem raised_error_retried_iff_internal:
  assumes url: "match_data_url url = Some (mt, b)"
  shows "(\<forall>a e.
            1 \<le> a \<and> a \<le> calls (generateWatercolourPainting call url)
            \<and> call a (the_request mt b) = Rejects e \<longrightarrow>
            (a < calls (generateWatercolourPainting call url)
               \<longleftrightarrow> retryable_error e \<and> a < 3)
            \<and> (retryable_error e \<and> a < 3 \<longrightarrow>
                 take a (waits (generateWatercolourPainting call url))
                 = map (\<lambda>k. 1000 * 2 ^ (k - 1)) [1..<Suc a])
            \<and> (\<not> (retryable_error e \<and> a < 3) \<longrightarrow>
                 calls (generateWatercolourPainting call url) = a
                 \<and> waits (generateWatercolourPainting call url)
                     = map (\<lambda>k. 1000 * 2 ^ (k - 1)) [1..<a]
                 \<and> (\<exists>msg. outcome (generateWatercolourPainting call url) = Threw msg)))
         \<and> (\<forall>e1 d1 e2 d2 r c cs ct before p after i m d.
              call 1 (the_request mt b) = Rejects e1 \<and> description e1 = Some d1
              \<and> sublist [34, 99, 111, 100, 101, 34, 58, 53, 48, 48] d1
              \<and> call 2 (the_request mt b) = Rejects e2 \<and> description e2 = Some d2
              \<and> sublist [34, 99, 111, 100, 101, 34, 58, 53, 48, 48] d2
              \<and> call 3 (the_request mt b) = Responds r
              \<and> candidates r = Some (c # cs) \<and> cand_content c = Some ct
              \<and> parts ct = Some (before @ p # after)
              \<and> (\<forall>q\<in>set before. inlineData q = None)
              \<and> inlineData p = Some i \<and> mimeType i = Some m \<and> data i = Some d \<longrightarrow>
              generateWatercolourPainting call url =
              \<lparr>outcome = Returned (js ''data:'' @ m @ js '';base64,'' @ d), calls = 3,
               waits = [1000, 2000]\<rparr>)"
proof (intro conjI allI impI)
  fix a e
  let ?run = "generateWatercolourPainting call url"
  assume h: "1 \<le> a \<and> a \<le> calls ?run \<and> call a (the_request mt b) = Rejects e"
  then have bound: "a \<le> maxRetries"
    and before: "\<forall>k. 1 \<le> k \<and> k < a \<longrightarrow> retryable (call k (the_request mt b))"
    using generate_when_reached [OF url, of a call] by blast+
  have body: "try_body (call a (the_request mt b)) = Inl e"
    using h by (simp add: try_body_def)
  have cap: "a < maxRetries \<longleftrightarrow> a < 3"
    by (simp add: maxRetries_def)
  have stop: "?run = \<lparr>outcome = Threw (case errorMessage e of None \<Rightarrow> type_error_includes
                                          | Some m \<Rightarrow> failure_message a e),
                       calls = a, waits = map (\<lambda>k. 1000 * 2 ^ (k - 1)) [1..<a]\<rparr>"
    if "\<not> (retryable_error e \<and> a < 3)"
  proof -
    have "\<not> (marked e \<and> a < maxRetries)"
      using that by (simp add: marked_retryable_error cap)
    then have "?run = \<lparr>outcome = Threw (case errorMessage e of None \<Rightarrow> type_error_includes
                                          | Some m \<Rightarrow> failure_message a e),
                       calls = a, waits = backoff_waits (a - 1)\<rparr>"
      using generate_at_attempt_stops [where a = a and call = call and e = e and url = url
          and mt = mt and b = b] url body h bound before by blast
    then show ?thesis
      using h by (simp only: backoff_waits_before)
  qed
  have retry: "a < calls ?run \<and> take a (waits ?run) = map (\<lambda>k. 1000 * 2 ^ (k - 1)) [1..<Suc a]"
    if "retryable_error e \<and> a < 3"
  proof -
    have "retryable (call a (the_request mt b))" and "a < maxRetries"
      using that h by (simp_all add: retryable_Rejects marked_retryable_error cap)
    then have "a < calls ?run \<and> take a (waits ?run) = backoff_waits a"
      using generate_at_attempt_retries [where a = a and call = call and url = url
          and mt = mt and b = b] url h before by blast
    then show ?thesis
      by (simp only: backoff_waits_upto)
  qed
  show "a < calls ?run \<longleftrightarrow> retryable_error e \<and> a < 3"
  proof (cases "retryable_error e \<and> a < 3")
    case True
    then show ?thesis using retry by blast
  next
    case False
    then show ?thesis using stop by simp
  qed
  show "take a (waits ?run) = map (\<lambda>k. 1000 * 2 ^ (k - 1)) [1..<Suc a]"
    if "retryable_error e \<and> a < 3"
    using retry that by blast
  show "calls ?run = a" if "\<not> (retryable_error e \<and> a < 3)"
    using stop [OF that] by simp
  show "waits ?run = map (\<lambda>k. 1000 * 2 ^ (k - 1)) [1..<a]" if "\<not> (retryable_error e \<and> a < 3)"
    using stop [OF that] by simp
  show "\<exists>msg. outcome ?run = Threw msg" if "\<not> (retryable_error e \<and> a < 3)"
    using stop [OF that] by simp
next
  fix e1 d1 e2 d2 r c cs ct before p after i m d
  let ?run = "generateWatercolourPainting call url"
  assume h: "call 1 (the_request mt b) = Rejects e1 \<and> description e1 = Some d1
              \<and> sublist [34, 99, 111, 100, 101, 34, 58, 53, 48, 48] d1
              \<and> call 2 (the_request mt b) = Rejects e2 \<and> description e2 = Some d2
              \<and> sublist [34, 99, 111, 100, 101, 34, 58, 53, 48, 48] d2
              \<and> call 3 (the_request mt b) = Responds r
              \<and> candidates r = Some (c # cs) \<and> cand_content c = Some ct
              \<and> parts ct = Some (before @ p # after)
              \<and> (\<forall>q\<in>set before. inlineData q = None)
              \<and> inlineData p = Some i \<and> mimeType i = Some m \<and> data i = Some d"
  have "retryable_error e1" and "retryable_error e2"
    using h by (simp_all add: retryable_error_def holds_marker_def)
  then have two: "retryable (call 1 (the_request mt b))" "retryable (call 2 (the_request mt b))"
    using h by (simp_all add: retryable_Rejects marked_retryable_error)
  have earlier: "\<forall>k. 1 \<le> k \<and> k < 3 \<longrightarrow> retryable (call k (the_request mt b))"
  proof (intro allI impI)
    fix k :: nat
    assume "1 \<le> k \<and> k < 3"
    then have "k = 1 \<or> k = 2" by auto
    then show "retryable (call k (the_request mt b))"
      using two by auto
  qed
  have "try_body (Responds r) = Inr (js ''data:'' @ m @ js '';base64,'' @ d)"
    using h first_inline_part_read [where r = r and c = c and cs = cs and ct = ct
        and before = before and p = p and after = after and i = i and m = m and d = d]
    by blast
  then have "try_body (call 3 (the_request mt b)) = Inr (js ''data:'' @ m @ js '';base64,'' @ d)"
    using h by simp
  then have "?run = \<lparr>outcome = Returned (js ''data:'' @ m @ js '';base64,'' @ d), calls = 3,
                      waits = backoff_waits (3 - 1)\<rparr>"
    using generate_at_attempt_returns [where a = 3 and call = call and url = url
        and mt = mt and b = b] url earlier by (simp add: maxRetries_def)
  then show "?run = \<lparr>outcome = Returned (js ''data:'' @ m @ js '';base64,'' @ d), calls = 3,
               waits = [1000, 2000]\<rparr>"
    by (simp add: backoff_waits_simps)
qed

theorem raised_error_retried_iff_internal_witness:
  "generateWatercolourPainting twice_500_then_png png_url =
     \<lparr>outcome = Returned (js ''data:'' @ js ''image/png'' @ js '';base64,'' @ js ''iVBORw0KG''),
      calls = 3, waits = [1000, 2000]\<rparr>
   \<and> 1 < calls (generateWatercolourPainting twice_500_then_png png_url)
   \<and> take 1 (waits (generateWatercolourPainting twice_500_then_png png_url)) = [1000]"
proof -
  let ?req = "the_request (js ''image/png'') (js ''iVBORw0KG'')"
  let ?i = "\<lparr>mimeType = Some (js ''image/png''), data = Some (js ''iVBORw0KG'')\<rparr>"
  note claim = raised_error_retried_iff_internal [OF match_png_url, of twice_500_then_png]
  have example: "twice_500_then_png 1 ?req = Rejects api_500
      \<and> description api_500 = Some (js ''{'' @ quoted (js ''error'') @ js '':{'' @ code_500 @ js ''}}'')
      \<and> sublist [34, 99, 111, 100, 101, 34, 58, 53, 48, 48]
           (js ''{'' @ quoted (js ''error'') @ js '':{'' @ code_500 @ js ''}}'')
      \<and> twice_500_then_png 2 ?req = Rejects api_500
      \<and> description api_500 = Some (js ''{'' @ quoted (js ''error'') @ js '':{'' @ code_500 @ js ''}}'')
      \<and> sublist [34, 99, 111, 100, 101, 34, 58, 53, 48, 48]
           (js ''{'' @ quoted (js ''error'') @ js '':{'' @ code_500 @ js ''}}'')
      \<and> twice_500_then_png 3 ?req = Responds png_reply
      \<and> candidates png_reply = Some (candidate_of [png_part] # [])
      \<and> cand_content (candidate_of [png_part]) = Some \<lparr>parts = Some [png_part]\<rparr>
      \<and> parts \<lparr>parts = Some [png_part]\<rparr> = Some ([] @ png_part # [])
      \<and> (\<forall>q\<in>set []. inlineData q = None)
      \<and> inlineData png_part = Some ?i \<and> mimeType ?i = Some (js ''image/png'')
      \<and> data ?i = Some (js ''iVBORw0KG'')"
    using api_500_description api_500_holds_code
    by (simp add: twice_500_then_png_def png_reply_def image_reply_def candidate_of_def
        png_part_def)
  from claim example
  have run: "generateWatercolourPainting twice_500_then_png png_url =
     \<lparr>outcome = Returned (js ''data:'' @ js ''image/png'' @ js '';base64,'' @ js ''iVBORw0KG''),
      calls = 3, waits = [1000, 2000]\<rparr>"
    by blast
  have first: "1 \<le> (1::nat)
      \<and> 1 \<le> calls (generateWatercolourPainting twice_500_then_png png_url)
      \<and> twice_500_then_png 1 ?req = Rejects api_500"
    by (simp add: run twice_500_then_png_def)
  have retry: "retryable_error api_500 \<and> (1::nat) < 3"
    using retryable_error_api_500 by simp
  from claim first retry
  have "1 < calls (generateWatercolourPainting twice_500_then_png png_url)
      \<and> take 1 (waits (generateWatercolourPainting twice_500_then_png png_url))
          = map (\<lambda>k. 1000 * 2 ^ (k - 1)) [1..<Suc 1]"
    by blast
  then show ?thesis
    using run by simp
qed

subsection \<open>A response without an image\<close>




subsection \<open>A response with an inline image\<close>

text \<open>
  Claim C5, as the code has it. Let the response to the \<open>a\<close>-th request have, among the
  content parts of its first candidate, a first part with inline data, of type \<open>m\<close> and
  payload \<open>d\<close>. Then the generator returns \<open>data:m;base64,d\<close> at once: \<open>a\<close> requests
  have been sent, no further one follows, and no wait follows the response.
\<close>

theorem first_inline_part_returned_at_once:
  assumes url: "match_data_url url = Some (mt, b)"
    and attempt: "1 \<le> a"
    and reached: "a \<le> calls (generateWatercolourPainting call url)"
    and answer: "call a (the_request mt b) = Responds r"
    and first: "candidates r = Some (c # cs)" "cand_content c = Some ct"
      "parts ct = Some (before @ p # after)" "\<forall>q\<in>set before. inlineData q = None"
    and inline: "inlineData p = Some i" "mimeType i = Some m" "data i = Some d"
  shows "generateWatercolourPainting call url =
         \<lparr>outcome = Returned (js ''data:'' @ m @ js '';base64,'' @ d), calls = a,
          waits = map (\<lambda>k. 1000 * 2 ^ (k - 1)) [1..<a]\<rparr>"
proof -
  have body: "try_body (call a (the_request mt b)) = Inr (js ''data:'' @ m @ js '';base64,'' @ d)"
    unfolding answer using first inline by (rule first_inline_part_read)
  have "a \<le> maxRetries"
    and "\<forall>k. 1 \<le> k \<and> k < a \<longrightarrow> retryable (call k (the_request mt b))"
    using generate_when_reached [OF url attempt reached] by blast+
  then have "generateWatercolourPainting call url =
         \<lparr>outcome = Returned (js ''data:'' @ m @ js '';base64,'' @ d), calls = a,
          waits = backoff_waits (a - 1)\<rparr>"
    using generate_at_attempt_returns [where a = a and call = call and url = url
        and mt = mt and b = b] url attempt body by blast
  then show ?thesis
    unfolding backoff_waits_before [OF attempt] .
qed

text \<open>A text part, then the image.\<close>

theorem first_inline_part_returned_at_once_witness:
  "generateWatercolourPainting always_text_then_png png_url =
     \<lparr>outcome = Returned (js ''data:'' @ js ''image/png'' @ js '';base64,'' @ js ''iVBORw0KG''),
      calls = 1, waits = []\<rparr>"
proof -
  have reached: "1 \<le> calls (generateWatercolourPainting always_text_then_png png_url)"
    by (simp add: always_text_then_png_run)
  have answer: "always_text_then_png 1 (the_request (js ''image/png'') (js ''iVBORw0KG'')) =
      Responds text_then_png_reply"
    by (simp add: always_text_then_png_def)
  have first: "candidates text_then_png_reply = Some (candidate_of [text_part, png_part] # [])"
    "cand_content (candidate_of [text_part, png_part]) = Some \<lparr>parts = Some [text_part, png_part]\<rparr>"
    "parts \<lparr>parts = Some [text_part, png_part]\<rparr> = Some ([text_part] @ png_part # [])"
    "\<forall>q\<in>set [text_part]. inlineData q = None"
    by (simp_all add: text_then_png_reply_def candidate_of_def text_part_def)
  have inline: "inlineData png_part =
      Some \<lparr>mimeType = Some (js ''image/png''), data = Some (js ''iVBORw0KG'')\<rparr>"
    "mimeType \<lparr>mimeType = Some (js ''image/png''), data = Some (js ''iVBORw0KG'')\<rparr>
       = Some (js ''image/png'')"
    "data \<lparr>mimeType = Some (js ''image/png''), data = Some (js ''iVBORw0KG'')\<rparr>
       = Some (js ''iVBORw0KG'')"
    by (simp_all add: png_part_def)
  have one: "(1::nat) \<le> 1"
    by simp
  from first_inline_part_returned_at_once [where call = always_text_then_png,
      OF match_png_url one reached answer first inline]
  show ?thesis
    by simp
qed

text \<open>
  Claim C5 as it was stated speaks of every response that contains a part with inline
  image data. Only the first candidate is read, and of its parts the first with inline
  data is taken: a PNG behind a JPEG is not returned, the JPEG is; a PNG in a second
  candidate is not seen, and the run fails as for a response without an image.
\<close>

theorem later_inline_part_is_not_returned:
  "generateWatercolourPainting always_jpeg_then_png png_url =
     \<lparr>outcome = Returned jpeg_url, calls = 1, waits = []\<rparr>
   \<and> jpeg_url \<noteq> js ''data:'' @ js ''image/png'' @ js '';base64,'' @ js ''iVBORw0KG''
   \<and> generateWatercolourPainting always_second_candidate png_url =
       \<lparr>outcome = Threw (failed_after_prefix @ js ''1'' @ failed_after_details
                          @ text_reply_prefix @ js ''Here it is.'' @ [34]),
        calls = 1, waits = []\<rparr>"
proof -
  let ?req = "the_request (js ''image/png'') (js ''iVBORw0KG'')"
  have "try_body (always_jpeg_then_png 1 ?req) = Inr jpeg_url"
    by (simp add: always_jpeg_then_png_def jpeg_then_png_reply_def candidate_of_def
        jpeg_part_def png_part_def try_body_def read_response_def imagePartFromResponse_def
        data_url_def jpeg_url_def js_def)
  then have jpeg: "generateWatercolourPainting always_jpeg_then_png png_url =
     \<lparr>outcome = Returned jpeg_url, calls = 1, waits = []\<rparr>"
    using generate_at_attempt_returns [where a = 1 and call = always_jpeg_then_png
        and url = png_url and u = jpeg_url, OF match_png_url]
    by (simp add: maxRetries_def backoff_waits_simps)
  have other: "jpeg_url \<noteq> js ''data:'' @ js ''image/png'' @ js '';base64,'' @ js ''iVBORw0KG''"
    by (simp add: jpeg_url_def js_def)
  let ?e = "ErrorObject (text_reply_prefix @ js ''Here it is.'' @ [34])"
  have body: "try_body (always_second_candidate 1 ?req) = Inl ?e"
    by (simp add: always_second_candidate_def second_candidate_reply_def candidate_of_def
        text_part_def png_part_def try_body_def read_response_def imagePartFromResponse_def
        text_reply_message_def js_def)
  have "\<not> text_marks_retry (js ''Here it is.'')"
    by (simp add: text_marks_retry_def code_500_def code_500_tail_def js_def)
  then have "\<not> isInternalError (text_reply_message (Some (js ''Here it is.'')))"
    by (simp add: marker_in_text_reply)
  moreover have "text_reply_message (Some (js ''Here it is.'')) =
      text_reply_prefix @ js ''Here it is.'' @ [34]"
    by (simp add: text_reply_message_def js_def)
  ultimately have "\<not> (marked ?e \<and> 1 < maxRetries)"
    by (simp add: marked_def errorMessage_def)
  then have "generateWatercolourPainting always_second_candidate png_url =
       \<lparr>outcome = Threw (failure_message 1 ?e), calls = 1, waits = backoff_waits (1 - 1)\<rparr>"
    using generate_at_attempt_stops [where a = 1 and call = always_second_candidate
        and url = png_url and e = ?e, OF match_png_url] body
    by (simp add: maxRetries_def errorMessage_def)
  then have second: "generateWatercolourPainting always_second_candidate png_url =
       \<lparr>outcome = Threw (failed_after_prefix @ js ''1'' @ failed_after_details
                          @ text_reply_prefix @ js ''Here it is.'' @ [34]),
        calls = 1, waits = []\<rparr>"
    by (simp add: failure_message_def backoff_waits_simps js_def)
  show ?thesis
    by (rule conjI [OF jpeg conjI [OF other second]])
qed

subsection \<open>What the generator can return\<close>




subsection \<open>The cached capture\<close>

text \<open>
  Claim C7. A generation requested while a painting is shown and a capture is cached
  (the phase \<open>ResultReady\<close> with a cache) hands the cached capture to the generator and
  does not call \<open>captureMapView\<close>. A generation requested without that (no painting, or
  no cache: the phase \<open>ViewReady\<close>) calls \<open>captureMapView\<close> exactly once, and a capture
  that succeeds is cached before the generator runs and is the image handed to it.
  After such a run has succeeded, the capture is still cached with the painting, and
  the next request reuses it without a new capture.
\<close>

theorem capture_reused_or_taken_once:
  "(watercolourPainting s \<noteq> [] \<and> capturedMapImage s \<noteq> [] \<longrightarrow>
      captures (handleGenerateWatercolour shot call s) = 0
      \<and> processed (handleGenerateWatercolour shot call s) = Some (capturedMapImage s))
   \<and> (phase s = ResultReady \<and> capturedMapImage s \<noteq> [] \<longrightarrow>
        captures (handleGenerateWatercolour shot call s) = 0
        \<and> phase (during (handleGenerateWatercolour shot call s)) = Generating)
   \<and> (phase s = ViewReady \<longrightarrow> captures (handleGenerateWatercolour shot call s) = 1)
   \<and> (\<not> (watercolourPainting s \<noteq> [] \<and> capturedMapImage s \<noteq> []) \<longrightarrow>
        captures (handleGenerateWatercolour shot call s) = 1)
   \<and> (\<forall>u. \<not> (watercolourPainting s \<noteq> [] \<and> capturedMapImage s \<noteq> [])
            \<and> captureMapView shot s = Inr u \<longrightarrow>
            capturedMapImage (during (handleGenerateWatercolour shot call s)) = u
            \<and> processed (handleGenerateWatercolour shot call s) = Some u)
   \<and> (\<forall>u p shot' call'.
          \<not> (watercolourPainting s \<noteq> [] \<and> capturedMapImage s \<noteq> [])
          \<and> captureMapView shot s = Inr u
          \<and> outcome (generateWatercolourPainting call u) = Returned p \<longrightarrow>
          capturedMapImage (final (handleGenerateWatercolour shot call s)) = u
          \<and> watercolourPainting (final (handleGenerateWatercolour shot call s)) = p
          \<and> captures (handleGenerateWatercolour shot' call'
                        (final (handleGenerateWatercolour shot call s))) = 0
          \<and> processed (handleGenerateWatercolour shot' call'
                         (final (handleGenerateWatercolour shot call s))) = Some u)"
proof (intro conjI allI impI)
  assume cached: "watercolourPainting s \<noteq> [] \<and> capturedMapImage s \<noteq> []"
  then show "captures (handleGenerateWatercolour shot call s) = 0"
    by (simp add: handler_reuses_cache generate_and_store_fields)
  from cached show "processed (handleGenerateWatercolour shot call s) = Some (capturedMapImage s)"
    by (simp add: handler_reuses_cache generate_and_store_fields)
next
  assume "phase s = ResultReady \<and> capturedMapImage s \<noteq> []"
  then have cached: "watercolourPainting s \<noteq> [] \<and> capturedMapImage s \<noteq> []"
    by (auto simp: phase_def split: if_splits)
  then show "captures (handleGenerateWatercolour shot call s) = 0"
    by (simp add: handler_reuses_cache generate_and_store_fields)
  from cached show "phase (during (handleGenerateWatercolour shot call s)) = Generating"
    by (simp add: handler_reuses_cache generate_and_store_fields phase_def)
next
  assume "phase s = ViewReady"
  then have "\<not> (watercolourPainting s \<noteq> [] \<and> capturedMapImage s \<noteq> [])"
    by (auto simp: phase_def split: if_splits)
  then show "captures (handleGenerateWatercolour shot call s) = 1"
    by (rule handler_captures_count)
next
  assume "\<not> (watercolourPainting s \<noteq> [] \<and> capturedMapImage s \<noteq> [])"
  then show "captures (handleGenerateWatercolour shot call s) = 1"
    by (rule handler_captures_count)
next
  fix u
  assume h: "\<not> (watercolourPainting s \<noteq> [] \<and> capturedMapImage s \<noteq> [])
            \<and> captureMapView shot s = Inr u"
  then have run: "handleGenerateWatercolour shot call s =
         generate_and_store call u 1
           (s\<lparr>isGeneratingPainting := True, error := None, capturedMapImage := u\<rparr>)"
    by (simp add: handler_fresh_capture)
  show "capturedMapImage (during (handleGenerateWatercolour shot call s)) = u"
    by (simp add: run generate_and_store_fields)
  show "processed (handleGenerateWatercolour shot call s) = Some u"
    by (simp add: run generate_and_store_fields)
next
  fix u p shot' call'
  assume h: "\<not> (watercolourPainting s \<noteq> [] \<and> capturedMapImage s \<noteq> [])
          \<and> captureMapView shot s = Inr u
          \<and> outcome (generateWatercolourPainting call u) = Returned p"
  then have run: "handleGenerateWatercolour shot call s =
         generate_and_store call u 1
           (s\<lparr>isGeneratingPainting := True, error := None, capturedMapImage := u\<rparr>)"
    by (simp add: handler_fresh_capture)
  have final: "final (handleGenerateWatercolour shot call s) =
      s\<lparr>isGeneratingPainting := True, error := None, capturedMapImage := u,
        watercolourPainting := p, isGeneratingPainting := False\<rparr>"
    using h by (simp add: run generate_and_store_success)
  have p: "p \<noteq> []"
    using h generate_returned_nonempty by blast
  have u: "u \<noteq> []"
  proof
    assume "u = []"
    then have "match_data_url u = None"
      by (simp add: match_data_url_def js_def)
    then show False
      using h by (simp add: generate_rejects_input)
  qed
  show "capturedMapImage (final (handleGenerateWatercolour shot call s)) = u"
    by (simp add: final)
  show "watercolourPainting (final (handleGenerateWatercolour shot call s)) = p"
    by (simp add: final)
  show "captures (handleGenerateWatercolour shot' call'
                        (final (handleGenerateWatercolour shot call s))) = 0"
    using p u by (simp add: final handler_reuses_cache generate_and_store_fields)
  show "processed (handleGenerateWatercolour shot' call'
                         (final (handleGenerateWatercolour shot call s))) = Some u"
    using p u by (simp add: final handler_reuses_cache generate_and_store_fields)
qed

theorem capture_reused_or_taken_once_witness:
  "captures (handleGenerateWatercolour (Inr capture_url) always_png result_state) = 0
   \<and> processed (handleGenerateWatercolour (Inr capture_url) always_png result_state)
       = Some old_capture_url
   \<and> captures (handleGenerateWatercolour (Inr capture_url) always_png view_state) = 1
   \<and> capturedMapImage (during (handleGenerateWatercolour (Inr capture_url) always_png view_state))
       = capture_url
   \<and> captures (handleGenerateWatercolour (Inr old_capture_url) always_500
                 (final (handleGenerateWatercolour (Inr capture_url) always_png view_state))) = 0
   \<and> processed (handleGenerateWatercolour (Inr old_capture_url) always_500
                 (final (handleGenerateWatercolour (Inr capture_url) always_png view_state)))
       = Some capture_url"
proof -
  have cached: "watercolourPainting result_state \<noteq> [] \<and> capturedMapImage result_state \<noteq> []"
    by (simp add: result_state_fields sample_urls_nonempty)
  have fresh: "\<not> (watercolourPainting view_state \<noteq> [] \<and> capturedMapImage view_state \<noteq> [])"
    by (simp add: view_state_fields)
  have shot: "captureMapView (Inr capture_url) view_state = Inr capture_url"
    by (simp add: captureMapView_def view_state_fields)
  have painted: "outcome (generateWatercolourPainting always_png capture_url) = Returned png_url"
    by (simp add: always_png_on_capture)
  note rerun = capture_reused_or_taken_once [of result_state "Inr capture_url" always_png]
  note first = capture_reused_or_taken_once [of view_state "Inr capture_url" always_png]
  from rerun cached
  have a: "captures (handleGenerateWatercolour (Inr capture_url) always_png result_state) = 0
      \<and> processed (handleGenerateWatercolour (Inr capture_url) always_png result_state)
          = Some old_capture_url"
    by (simp add: result_state_fields)
  from first fresh
  have b: "captures (handleGenerateWatercolour (Inr capture_url) always_png view_state) = 1"
    by blast
  from first fresh shot
  have c: "capturedMapImage (during (handleGenerateWatercolour (Inr capture_url) always_png view_state))
       = capture_url"
    by blast
  from first fresh shot painted
  have d: "captures (handleGenerateWatercolour (Inr old_capture_url) always_500
                 (final (handleGenerateWatercolour (Inr capture_url) always_png view_state))) = 0
   \<and> processed (handleGenerateWatercolour (Inr old_capture_url) always_500
                 (final (handleGenerateWatercolour (Inr capture_url) always_png view_state)))
       = Some capture_url"
    by blast
  show ?thesis
    using a b c d by blast
qed

subsection \<open>The failure transition\<close>

text \<open>
  Claim C8. Whenever the generator, called by the handler with some image, fails with
  any error, the handler leaves neither a painting nor a cached capture, shows the
  message of the error and ends the busy state: from \<open>Generating\<close> the component is
  back in \<open>ViewReady\<close>.
\<close>

theorem generator_failure_returns_to_view:
  assumes sent: "processed (handleGenerateWatercolour shot call s) = Some img"
    and failed: "outcome (generateWatercolourPainting call img) = Threw msg"
  shows "watercolourPainting (final (handleGenerateWatercolour shot call s)) = []
         \<and> capturedMapImage (final (handleGenerateWatercolour shot call s)) = []
         \<and> error (final (handleGenerateWatercolour shot call s)) = Some msg
         \<and> \<not> isGeneratingPainting (final (handleGenerateWatercolour shot call s))
         \<and> phase (during (handleGenerateWatercolour shot call s)) = Generating
         \<and> (mapInitialized s \<longrightarrow>
              phase (final (handleGenerateWatercolour shot call s)) = ViewReady)"
proof -
  obtain n s' where run: "handleGenerateWatercolour shot call s = generate_and_store call img n s'"
      and busy: "isGeneratingPainting s'" and map: "mapInitialized s' = mapInitialized s"
    using handler_generation [OF sent] by blast
  have final: "final (handleGenerateWatercolour shot call s) = on_failure (ErrorObject msg) s'"
    using failed by (simp add: run generate_and_store_failure)
  have during: "during (handleGenerateWatercolour shot call s) = s'"
    by (simp add: run generate_and_store_fields)
  show ?thesis
    using busy map by (simp add: final during on_failure_fields phase_def)
qed

theorem generator_failure_returns_to_view_witness:
  "watercolourPainting (final (handleGenerateWatercolour (Inr capture_url) always_500 view_state)) = []
   \<and> capturedMapImage (final (handleGenerateWatercolour (Inr capture_url) always_500 view_state)) = []
   \<and> error (final (handleGenerateWatercolour (Inr capture_url) always_500 view_state))
       = Some (failure_message 3 api_500)
   \<and> phase (during (handleGenerateWatercolour (Inr capture_url) always_500 view_state)) = Generating
   \<and> phase (final (handleGenerateWatercolour (Inr capture_url) always_500 view_state)) = ViewReady"
proof -
  have fresh: "\<not> (watercolourPainting view_state \<noteq> [] \<and> capturedMapImage view_state \<noteq> [])"
    by (simp add: view_state_fields)
  have shot: "captureMapView (Inr capture_url) view_state = Inr capture_url"
    by (simp add: captureMapView_def view_state_fields)
  have sent: "processed (handleGenerateWatercolour (Inr capture_url) always_500 view_state)
      = Some capture_url"
    by (simp add: handler_fresh_capture [OF fresh shot] generate_and_store_fields)
  have failed: "outcome (generateWatercolourPainting always_500 capture_url)
      = Threw (failure_message 3 api_500)"
    by (simp add: always_500_on_capture)
  from generator_failure_returns_to_view [OF sent failed]
  show ?thesis
    by (simp add: view_state_fields)
qed

subsection \<open>A new location\<close>

text \<open>
  Claim C9. \<open>initMap\<close> clears the painting and the cached capture, but the handler of a
  generation that is in flight writes its capture and its painting after it. A
  generation is requested at one location, and a new location is resolved while
  \<open>captureMapView\<close> is pending: the component ends in \<open>ResultReady\<close> at the new
  location with the capture of the earlier request cached, and the next request hands
  that capture to the generator without calling \<open>captureMapView\<close>. Where the new
  location is resolved while the generator is pending, the painting of the earlier
  request is held at the new location.
\<close>

theorem capture_cached_across_new_location:
  "phase view_state = ViewReady
   \<and> mapInstance view_state = Some paris
   \<and> mapInstance (final recentered_while_capturing) = Some london
   \<and> phase (final recentered_while_capturing) = ResultReady
   \<and> capturedMapImage (final recentered_while_capturing) = capture_url
   \<and> captures (handleGenerateWatercolour (Inr old_capture_url) always_png
                 (final recentered_while_capturing)) = 0
   \<and> processed (handleGenerateWatercolour (Inr old_capture_url) always_png
                  (final recentered_while_capturing)) = Some capture_url
   \<and> mapInstance (final recentered_while_generating) = Some london
   \<and> watercolourPainting (final recentered_while_generating) = png_url"
proof -
  let ?s = "final recentered_while_capturing"
  have fields: "mapInstance ?s = Some london" "watercolourPainting ?s = png_url"
    "capturedMapImage ?s = capture_url" "\<not> isGeneratingPainting ?s"
    by (simp_all add: recentered_while_capturing_final recenter_to_london_def initMap_def)
  have cached: "watercolourPainting ?s \<noteq> []" "capturedMapImage ?s \<noteq> []"
    by (simp_all add: fields sample_urls_nonempty)
  have a: "phase view_state = ViewReady" and b: "mapInstance view_state = Some paris"
    by (simp_all add: phase_def view_state_fields)
  have c: "phase ?s = ResultReady"
    by (simp add: phase_def fields sample_urls_nonempty)
  have d: "captures (handleGenerateWatercolour (Inr old_capture_url) always_png ?s) = 0"
    by (simp add: handler_reuses_cache [OF cached] generate_and_store_fields)
  have e: "processed (handleGenerateWatercolour (Inr old_capture_url) always_png ?s)
      = Some capture_url"
    by (simp add: handler_reuses_cache [OF cached] generate_and_store_fields fields)
  have f: "mapInstance (final recentered_while_generating) = Some london"
    and g: "watercolourPainting (final recentered_while_generating) = png_url"
    by (simp_all add: recentered_while_generating_final recenter_to_london_def initMap_def)
  show ?thesis
    using a b fields(1) c fields(3) d e f g by blast
qed

text \<open>
  With no generation in flight the claim holds: \<open>initMap\<close>, run to its end, leaves no
  painting and no cached capture, whatever was held before, and the request that
  follows calls \<open>captureMapView\<close> exactly once and hands that capture to the generator
  (\<open>request_after_new_location\<close> has the same for a request during which other
  handlers act).
\<close>

lemma new_location_clears_result_and_capture:
  "watercolourPainting (initMap True True loc addr s) = []
   \<and> capturedMapImage (initMap True True loc addr s) = []
   \<and> mapInitialized (initMap True True loc addr s)
   \<and> (\<not> isGeneratingPainting s \<longrightarrow> phase (initMap True True loc addr s) = ViewReady)
   \<and> captures (handleGenerateWatercolour shot call (initMap True True loc addr s)) = 1
   \<and> (\<forall>u. shot = Inr u \<longrightarrow>
         processed (handleGenerateWatercolour shot call (initMap True True loc addr s)) = Some u
         \<and> capturedMapImage
             (during (handleGenerateWatercolour shot call (initMap True True loc addr s))) = u)"
proof -
  let ?s = "initMap True True loc addr s"
  have fresh: "\<not> (watercolourPainting ?s \<noteq> [] \<and> capturedMapImage ?s \<noteq> [])"
    by (simp add: initMap_fields)
  have once: "captures (handleGenerateWatercolour shot call ?s) = 1"
    using fresh by (rule handler_captures_count)
  have taken: "\<forall>u. shot = Inr u \<longrightarrow>
         processed (handleGenerateWatercolour shot call ?s) = Some u
         \<and> capturedMapImage (during (handleGenerateWatercolour shot call ?s)) = u"
  proof (intro allI impI)
    fix u
    assume "shot = Inr u"
    then have "captureMapView shot ?s = Inr u"
      by (simp add: captureMapView_def initMap_fields)
    then show "processed (handleGenerateWatercolour shot call ?s) = Some u
         \<and> capturedMapImage (during (handleGenerateWatercolour shot call ?s)) = u"
      by (simp add: handler_fresh_capture [OF fresh] generate_and_store_fields)
  qed
  have view: "\<not> isGeneratingPainting s \<longrightarrow> phase ?s = ViewReady"
    by (simp add: phase_def initMap_fields)
  show ?thesis
    using once taken view by (simp add: initMap_fields)
qed

subsection \<open>The types the validation accepts\<close>

text \<open>
  Claim C10. An accepted input has a type of the form \<open>image/\<close> followed by word
  characters only. \<open>+\<close> is no word character, and so every input
  \<open>data:image/svg+xml;base64,...\<close> fails with the invalid-format error, whatever its
  payload, although \<open>image/svg+xml\<close> is an image type.
\<close>

theorem mime_subtype_must_be_word_characters:
  "(\<forall>url mt b. match_data_url url = Some (mt, b) \<longrightarrow>
      (\<exists>w. mt = js ''image/'' @ w \<and> w \<noteq> [] \<and> list_all is_word_char w))
   \<and> \<not> is_word_char (of_char CHR ''+'')
   \<and> (\<forall>payload call.
        generateWatercolourPainting call (js ''data:image/svg+xml;base64,'' @ payload) =
        \<lparr>outcome = Threw invalid_url_message, calls = 0, waits = []\<rparr>)"
  using match_data_url_Some_iff generate_rejects_input [OF match_svg] plus_no_word_char
  by blast

theorem mime_subtype_must_be_word_characters_witness:
  "(\<exists>w. js ''image/png'' = js ''image/'' @ w \<and> w \<noteq> [] \<and> list_all is_word_char w)
   \<and> generateWatercolourPainting always_png svg_url =
       \<lparr>outcome = Threw invalid_url_message, calls = 0, waits = []\<rparr>"
proof -
  have "svg_url = js ''data:image/svg+xml;base64,'' @ js ''PHN2Zy8+''"
    by (simp add: svg_url_def js_def)
  then show ?thesis
    using mime_subtype_must_be_word_characters match_png_url by metis
qed

end
